theory Spec2Isabelle
  imports Complex_Main "HOL-Library.Multiset"
begin

section \<open>JavaScript values read by the recycling client\<close>

text \<open>
  The development embeds the points and history synchronisation of the class
  \<^verbatim>\<open>EcoRecycleApp\<close> (the methods \<^verbatim>\<open>fetchPoints\<close>, \<^verbatim>\<open>loadHistoryFromBackend\<close>,
  \<^verbatim>\<open>claimReward\<close>, \<^verbatim>\<open>loadRewards\<close>) and the helpers \<^verbatim>\<open>parseDeltaFromDetalle\<close> and
  \<^verbatim>\<open>formatFecha\<close>.

  A JavaScript string is the list of its UTF-16 code units. A JavaScript number is
  \<open>NaN\<close>, an infinity, or a finite value, modelled by the rational it denotes. A
  number read from text (\<^verbatim>\<open>parseInt\<close>, \<^verbatim>\<open>Number\<close>) is rounded to binary64 by
  \<open>binary64\<close> below; \<open>-0\<close> is not told apart from \<open>0\<close> (the code compares and
  prints them alike).
\<close>

type_synonym jsstring = "nat list"

definition js :: "string \<Rightarrow> jsstring" where
  "js s = map of_char s"

datatype jsnum = NaN | Fin rat | PosInf | NegInf

datatype exn = TypeError | URIError | NetworkError | SyntaxError

text \<open>The relational operators on numbers: every comparison with \<open>NaN\<close> is false.\<close>

fun num_lt :: "jsnum \<Rightarrow> jsnum \<Rightarrow> bool" where
  "num_lt (Fin a) (Fin b) = (a < b)"
| "num_lt (Fin a) PosInf = True"
| "num_lt NegInf (Fin b) = True"
| "num_lt NegInf PosInf = True"
| "num_lt x y = False"

definition num_le :: "jsnum \<Rightarrow> jsnum \<Rightarrow> bool" where
  "num_le a b = (a \<noteq> NaN \<and> b \<noteq> NaN \<and> \<not> num_lt b a)"

definition num_ge :: "jsnum \<Rightarrow> jsnum \<Rightarrow> bool" where
  "num_ge a b = (a \<noteq> NaN \<and> b \<noteq> NaN \<and> \<not> num_lt a b)"

text \<open>\<^verbatim>\<open>a === b\<close> on numbers.\<close>

definition num_eq :: "jsnum \<Rightarrow> jsnum \<Rightarrow> bool" where
  "num_eq a b = (a \<noteq> NaN \<and> a = b)"

fun num_neg :: "jsnum \<Rightarrow> jsnum" where
  "num_neg NaN = NaN"
| "num_neg (Fin a) = Fin (- a)"
| "num_neg PosInf = NegInf"
| "num_neg NegInf = PosInf"

fun num_sub :: "jsnum \<Rightarrow> jsnum \<Rightarrow> jsnum" where
  "num_sub (Fin a) (Fin b) = Fin (a - b)"
| "num_sub NaN y = NaN"
| "num_sub x NaN = NaN"
| "num_sub PosInf PosInf = NaN"
| "num_sub NegInf NegInf = NaN"
| "num_sub PosInf y = PosInf"
| "num_sub NegInf y = NegInf"
| "num_sub (Fin a) PosInf = NegInf"
| "num_sub (Fin a) NegInf = PosInf"

text \<open>\<^verbatim>\<open>Math.max(0, x)\<close>.\<close>

definition Math_max0 :: "jsnum \<Rightarrow> jsnum" where
  "Math_max0 x = (if x = NaN then NaN else if num_lt x (Fin 0) then Fin 0 else x)"

subsection \<open>Rounding to binary64\<close>

text \<open>
  The Number value for a mathematical value \<open>q\<close>: the nearest value
  \<open>m * 2^e\<close> with \<open>\<bar>m\<bar> \<le> 2^53\<close> and \<open>e \<ge> -1074\<close>, a tie going to the even
  \<open>m\<close>, and an infinity when the rounded magnitude reaches \<open>2^1024\<close>.
  \<open>bitlen n\<close> is the number of binary digits of \<open>n\<close>, \<open>floor_log2 q\<close> the
  exponent \<open>f\<close> with \<open>2^f \<le> q < 2^(f+1)\<close> of a positive \<open>q\<close>.
\<close>

fun bitlen :: "nat \<Rightarrow> nat" where
  "bitlen n = (if n = 0 then 0 else Suc (bitlen (n div 2)))"

declare bitlen.simps [simp del]

definition pow2 :: "int \<Rightarrow> rat" where
  "pow2 e = (if 0 \<le> e then 2 ^ nat e else 1 / 2 ^ nat (- e))"

definition round_half_even :: "rat \<Rightarrow> int" where
  "round_half_even x =
     (let f = \<lfloor>x\<rfloor>; r = x - of_int f
      in if r < 1 / 2 then f else if 1 / 2 < r then f + 1 else if even f then f else f + 1)"

definition floor_log2 :: "rat \<Rightarrow> int" where
  "floor_log2 q =
     (let d = int (bitlen (nat (fst (quotient_of q)))) - int (bitlen (nat (snd (quotient_of q))))
      in if pow2 d \<le> q then d else d - 1)"

definition round_at :: "int \<Rightarrow> rat \<Rightarrow> jsnum" where
  "round_at e q =
     (let v = of_int (round_half_even (q / pow2 e)) * pow2 e
      in if 2 ^ 1024 \<le> v then PosInf else Fin v)"

definition binary64 :: "rat \<Rightarrow> jsnum" where
  "binary64 q =
     (if q = 0 then Fin 0
      else if 0 < q then round_at (max (floor_log2 q - 52) (- 1074)) q
      else num_neg (round_at (max (floor_log2 (- q) - 52) (- 1074)) (- q)))"

subsection \<open>Character classes\<close>

text \<open>
  \<^verbatim>\<open>\d\<close> is the ASCII digits. \<^verbatim>\<open>\s\<close>, and the white space that \<^verbatim>\<open>Number\<close> and
  \<^verbatim>\<open>parseInt\<close> strip, is the ECMAScript \<open>WhiteSpace\<close> and \<open>LineTerminator\<close> set.
\<close>

definition is_digit :: "nat \<Rightarrow> bool" where
  "is_digit c = (48 \<le> c \<and> c \<le> 57)"

definition is_space :: "nat \<Rightarrow> bool" where
  "is_space c = (c = 9 \<or> c = 10 \<or> c = 11 \<or> c = 12 \<or> c = 13 \<or> c = 32 \<or> c = 160
     \<or> c = 5760 \<or> (8192 \<le> c \<and> c \<le> 8202) \<or> c = 8232 \<or> c = 8233 \<or> c = 8239
     \<or> c = 8287 \<or> c = 12288 \<or> c = 65279)"

definition digits_val :: "jsstring \<Rightarrow> nat" where
  "digits_val ds = foldl (\<lambda>a c. 10 * a + (c - 48)) 0 ds"

fun digits :: "nat \<Rightarrow> jsstring" where
  "digits n = (if n < 10 then [48 + n] else digits (n div 10) @ [48 + n mod 10])"

definition decimal :: "int \<Rightarrow> jsstring" where
  "decimal i = (if i < 0 then 45 # digits (nat (- i)) else digits (nat i))"

subsection \<open>JSON values and property access\<close>

text \<open>
  What \<^verbatim>\<open>res.json()\<close> yields. An object is the list of its own properties (keys
  distinct, as \<^verbatim>\<open>JSON.parse\<close> leaves them). A value that may be \<^verbatim>\<open>undefined\<close> has type
  \<open>json option\<close>, with \<open>None\<close> for \<^verbatim>\<open>undefined\<close>.
\<close>

datatype json =
    JNull
  | JBool bool
  | JNum jsnum
  | JStr jsstring
  | JArr "json list"
  | JObj "(jsstring \<times> json) list"

text \<open>
  \<^verbatim>\<open>v.p\<close> for a \<open>v\<close> that is neither \<^verbatim>\<open>null\<close> nor \<^verbatim>\<open>undefined\<close>, and a name \<open>p\<close>
  that no prototype defines (every name the client reads is such a name): the own
  property of an object, \<^verbatim>\<open>undefined\<close> on anything else.
\<close>

fun get_prop :: "json \<Rightarrow> jsstring \<Rightarrow> json option" where
  "get_prop (JObj kvs) p = map_of kvs p"
| "get_prop v p = None"

text \<open>\<^verbatim>\<open>v.p\<close> on any value: reading a property of \<^verbatim>\<open>null\<close> throws.\<close>

definition read_prop :: "json \<Rightarrow> jsstring \<Rightarrow> exn + json option" where
  "read_prop v p = (case v of JNull \<Rightarrow> Inl TypeError | _ \<Rightarrow> Inr (get_prop v p))"

text \<open>\<^verbatim>\<open>v?.p\<close>.\<close>

definition opt_prop :: "json \<Rightarrow> jsstring \<Rightarrow> json option" where
  "opt_prop v p = (case v of JNull \<Rightarrow> None | _ \<Rightarrow> get_prop v p)"

text \<open>\<^verbatim>\<open>x ?? d\<close>.\<close>

definition nullish_or :: "json option \<Rightarrow> json \<Rightarrow> json" where
  "nullish_or x d = (case x of None \<Rightarrow> d | Some JNull \<Rightarrow> d | Some v \<Rightarrow> v)"

text \<open>Truthiness: \<^verbatim>\<open>undefined\<close>, \<^verbatim>\<open>null\<close>, \<^verbatim>\<open>false\<close>, \<open>0\<close>, \<open>NaN\<close> and \<^verbatim>\<open>""\<close> are falsy.\<close>

fun truthy :: "json option \<Rightarrow> bool" where
  "truthy None = False"
| "truthy (Some JNull) = False"
| "truthy (Some (JBool b)) = b"
| "truthy (Some (JNum n)) = (n \<noteq> NaN \<and> n \<noteq> Fin 0)"
| "truthy (Some (JStr s)) = (s \<noteq> [])"
| "truthy (Some (JArr xs)) = True"
| "truthy (Some (JObj kvs)) = True"

subsection \<open>Conversion to a number\<close>

text \<open>
  \<open>StringToNumber\<close>: the string with white space stripped at both ends is empty (the
  result is \<open>0\<close>), a decimal literal with an optional sign, fraction and exponent,
  \<^verbatim>\<open>Infinity\<close> with an optional sign, or an unsigned hexadecimal, octal or binary
  integer; anything else is \<open>NaN\<close>. The value of a literal is rounded to binary64, so
  \<^verbatim>\<open>1e400\<close> reads as \<^verbatim>\<open>Infinity\<close>. (For a decimal literal of more than 20
  significant digits the standard lets the implementation round one of two neighbours of
  the literal, taken at the 20th digit, instead of the literal itself; here the literal
  itself is rounded.)
\<close>

definition trim :: "jsstring \<Rightarrow> jsstring" where
  "trim s = rev (dropWhile is_space (rev (dropWhile is_space s)))"

definition pow10 :: "int \<Rightarrow> rat" where
  "pow10 e = (if 0 \<le> e then 10 ^ nat e else 1 / 10 ^ nat (- e))"

text \<open>The exponent part: empty, or \<^verbatim>\<open>e\<close>/\<^verbatim>\<open>E\<close>, an optional sign and digits.\<close>

definition exponent_part :: "jsstring \<Rightarrow> int option" where
  "exponent_part s = (case s of
       [] \<Rightarrow> Some 0
     | c # t \<Rightarrow>
         if c = 101 \<or> c = 69 then
           (let neg = (case t of d # u \<Rightarrow> d = 45 | [] \<Rightarrow> False);
                ds = (case t of d # u \<Rightarrow> if d = 43 \<or> d = 45 then u else t | [] \<Rightarrow> t)
            in if ds \<noteq> [] \<and> list_all is_digit ds
               then Some (if neg then - int (digits_val ds) else int (digits_val ds))
               else None)
         else None)"

text \<open>An unsigned decimal literal: \<^verbatim>\<open>12\<close>, \<^verbatim>\<open>12.\<close>, \<^verbatim>\<open>12.5\<close>, \<^verbatim>\<open>.5\<close>, each with an optional exponent.\<close>

definition unsigned_decimal :: "jsstring \<Rightarrow> jsnum" where
  "unsigned_decimal s =
     (if s = js ''Infinity'' then PosInf
      else
        let ip = takeWhile is_digit s;
            r1 = dropWhile is_digit s;
            dot = (case r1 of c # t \<Rightarrow> c = 46 | [] \<Rightarrow> False);
            fp = (if dot then takeWhile is_digit (tl r1) else []);
            r2 = (if dot then dropWhile is_digit (tl r1) else r1)
        in if ip = [] \<and> fp = [] then NaN
           else (case exponent_part r2 of
                   None \<Rightarrow> NaN
                 | Some e \<Rightarrow>
                     binary64 (of_nat (digits_val (ip @ fp)) * pow10 (e - int (length fp)))))"

definition digit_in :: "nat \<Rightarrow> nat \<Rightarrow> nat option" where
  "digit_in radix c =
     (let v = (if 48 \<le> c \<and> c \<le> 57 then c - 48
               else if 97 \<le> c \<and> c \<le> 102 then c - 87
               else if 65 \<le> c \<and> c \<le> 70 then c - 55
               else 16)
      in if v < radix then Some v else None)"

definition radix_val :: "nat \<Rightarrow> jsstring \<Rightarrow> nat" where
  "radix_val radix ds = foldl (\<lambda>a c. radix * a + (case digit_in radix c of Some v \<Rightarrow> v | None \<Rightarrow> 0)) 0 ds"

definition non_decimal :: "jsstring \<Rightarrow> jsnum option" where
  "non_decimal s = (case s of
       z # x # ds \<Rightarrow>
         (let radix = (if x = 120 \<or> x = 88 then 16 else if x = 111 \<or> x = 79 then 8
                       else if x = 98 \<or> x = 66 then 2 else 0)
          in if z = 48 \<and> radix \<noteq> 0 \<and> ds \<noteq> [] \<and> list_all (\<lambda>c. digit_in radix c \<noteq> None) ds
             then Some (binary64 (of_nat (radix_val radix ds)))
             else None)
     | _ \<Rightarrow> None)"

definition StringToNumber :: "jsstring \<Rightarrow> jsnum" where
  "StringToNumber s =
     (let t = trim s in
      if t = [] then Fin 0
      else (case non_decimal t of
              Some n \<Rightarrow> n
            | None \<Rightarrow>
                if hd t = 45 then num_neg (unsigned_decimal (tl t))
                else if hd t = 43 then unsigned_decimal (tl t)
                else unsigned_decimal t))"

text \<open>
  \<open>ToString\<close> of a JSON value throws exactly when it meets an object whose own
  property \<^verbatim>\<open>toString\<close> (never callable in JSON) shadows the inherited method.
\<close>

fun ToString_throws :: "json \<Rightarrow> bool" where
  "ToString_throws (JObj kvs) = (map_of kvs (js ''toString'') \<noteq> None)"
| "ToString_throws (JArr xs) = list_ex ToString_throws xs"
| "ToString_throws v = False"

text \<open>
  \<open>ToNumber\<close> of a JSON value. An object becomes the text \<^verbatim>\<open>[object Object]\<close>, hence
  \<open>NaN\<close>. An array becomes the texts of its elements joined by commas (\<^verbatim>\<open>null\<close> as the
  empty text): \<open>0\<close> for the empty array, \<open>NaN\<close> for two or more elements, and for
  one element the number of that element's text (a number prints to a text that reads
  back as itself).
\<close>

fun ToNumber :: "json \<Rightarrow> exn + jsnum" where
  "ToNumber JNull = Inr (Fin 0)"
| "ToNumber (JBool b) = Inr (Fin (if b then 1 else 0))"
| "ToNumber (JNum n) = Inr n"
| "ToNumber (JStr s) = Inr (StringToNumber s)"
| "ToNumber (JObj kvs) = (if ToString_throws (JObj kvs) then Inl TypeError else Inr NaN)"
| "ToNumber (JArr []) = Inr (Fin 0)"
| "ToNumber (JArr [JBool b]) = Inr NaN"
| "ToNumber (JArr [x]) = ToNumber x"
| "ToNumber (JArr (x # y # zs)) =
     (if ToString_throws (JArr (x # y # zs)) then Inl TypeError else Inr NaN)"

text \<open>\<^verbatim>\<open>Number(v)\<close> for a value that is not \<^verbatim>\<open>undefined\<close>.\<close>

definition Number :: "json \<Rightarrow> exn + jsnum" where
  "Number v = ToNumber v"

text \<open>\<^verbatim>\<open>n < v\<close> with a number on the left: the right operand is converted to a number.\<close>

definition lt_value :: "jsnum \<Rightarrow> json option \<Rightarrow> exn + bool" where
  "lt_value n v = (case v of
       None \<Rightarrow> Inr False
     | Some j \<Rightarrow> (case ToNumber j of Inl e \<Rightarrow> Inl e | Inr m \<Rightarrow> Inr (num_lt n m)))"

subsection \<open>Conversion to text\<close>

text \<open>
  \<open>Number::toString\<close>: an integer of magnitude up to \<open>2^53\<close> prints as its decimal
  digits, with a leading minus sign when negative. Any other finite number prints as the
  shortest numeral that reads back as the number (so \<open>2^60\<close> prints as
  \<^verbatim>\<open>1152921504606847000\<close>); that text is left to the host (\<open>Number_text\<close> below).
\<close>

record host =
  Date_parse :: "jsstring \<Rightarrow> int option"
  toLocaleString :: "int \<Rightarrow> jsstring"
  Number_text :: "rat \<Rightarrow> jsstring"
  parseInt_zeroes_after_20 :: bool
  has_rewards_grid :: bool
  has_notification_area :: bool

text \<open>
  The host is the browser: \<open>Date_parse\<close> is \<^verbatim>\<open>Date.parse\<close> (the time value in
  milliseconds, \<open>None\<close> for \<open>NaN\<close>), implementation-defined for every text that is not
  in the ISO format; \<open>toLocaleString\<close> is \<^verbatim>\<open>Date.prototype.toLocaleString\<close> in the
  browser's locale; \<open>parseInt_zeroes_after_20\<close> says whether \<^verbatim>\<open>parseInt\<close> reads the
  digits after the 20th significant digit as zeros, which the standard allows;
  \<open>has_rewards_grid\<close> says whether the page holds the element
  \<^verbatim>\<open>rewards-grid\<close>, and \<open>has_notification_area\<close> whether it holds both
  \<^verbatim>\<open>notifications\<close> and \<^verbatim>\<open>notification-message\<close>.
\<close>

definition Number_toString :: "host \<Rightarrow> jsnum \<Rightarrow> jsstring" where
  "Number_toString h x = (case x of
       NaN \<Rightarrow> js ''NaN''
     | PosInf \<Rightarrow> js ''Infinity''
     | NegInf \<Rightarrow> js ''-Infinity''
     | Fin q \<Rightarrow>
         if q = of_int \<lfloor>q\<rfloor> \<and> \<bar>q\<bar> \<le> 2 ^ 53 then decimal \<lfloor>q\<rfloor> else Number_text h q)"

fun join_comma :: "jsstring list \<Rightarrow> jsstring" where
  "join_comma [] = []"
| "join_comma [x] = x"
| "join_comma (x # y # zs) = x @ 44 # join_comma (y # zs)"

fun ToString :: "host \<Rightarrow> json \<Rightarrow> jsstring" where
  "ToString h JNull = js ''null''"
| "ToString h (JBool b) = (if b then js ''true'' else js ''false'')"
| "ToString h (JNum n) = Number_toString h n"
| "ToString h (JStr s) = s"
| "ToString h (JObj kvs) = js ''[object Object]''"
| "ToString h (JArr xs) =
     join_comma (map (\<lambda>x. case x of JNull \<Rightarrow> [] | _ \<Rightarrow> ToString h x) xs)"

text \<open>
  \<open>ToString h v\<close> is the text of \<open>v\<close> when the conversion does not throw, that is when
  \<open>ToString_throws v\<close> is false.
\<close>

subsection \<open>\<^verbatim>\<open>encodeURIComponent\<close>\<close>

text \<open>
  The code points of the string are read from its code units (a lone surrogate throws a
  \<open>URIError\<close>); an unreserved ASCII character stands for itself, any other code point
  becomes the percent-escaped bytes of its UTF-8 encoding.
\<close>

definition is_high_surrogate :: "nat \<Rightarrow> bool" where
  "is_high_surrogate c = (55296 \<le> c \<and> c \<le> 56319)"

definition is_low_surrogate :: "nat \<Rightarrow> bool" where
  "is_low_surrogate c = (56320 \<le> c \<and> c \<le> 57343)"

fun code_points :: "jsstring \<Rightarrow> nat list option" where
  "code_points [] = Some []"
| "code_points [c] = (if is_high_surrogate c \<or> is_low_surrogate c then None else Some [c])"
| "code_points (c # d # ds) =
     (if is_high_surrogate c then
        (if is_low_surrogate d
         then map_option (Cons (65536 + (c - 55296) * 1024 + (d - 56320))) (code_points ds)
         else None)
      else if is_low_surrogate c then None
      else map_option (Cons c) (code_points (d # ds)))"

definition utf8 :: "nat \<Rightarrow> nat list" where
  "utf8 cp =
     (if cp < 128 then [cp]
      else if cp < 2048 then [192 + cp div 64, 128 + cp mod 64]
      else if cp < 65536 then [224 + cp div 4096, 128 + (cp div 64) mod 64, 128 + cp mod 64]
      else [240 + cp div 262144, 128 + (cp div 4096) mod 64, 128 + (cp div 64) mod 64,
            128 + cp mod 64])"

definition hex_digit :: "nat \<Rightarrow> nat" where
  "hex_digit v = (if v < 10 then 48 + v else 55 + v)"

definition percent :: "nat \<Rightarrow> jsstring" where
  "percent b = [37, hex_digit (b div 16), hex_digit (b mod 16)]"

definition uri_unreserved :: "nat \<Rightarrow> bool" where
  "uri_unreserved c = ((65 \<le> c \<and> c \<le> 90) \<or> (97 \<le> c \<and> c \<le> 122) \<or> (48 \<le> c \<and> c \<le> 57)
     \<or> c = 45 \<or> c = 95 \<or> c = 46 \<or> c = 33 \<or> c = 126 \<or> c = 42 \<or> c = 39 \<or> c = 40 \<or> c = 41)"

definition encodeURIComponent :: "jsstring \<Rightarrow> jsstring option" where
  "encodeURIComponent s =
     map_option
       (\<lambda>cps. concat (map (\<lambda>cp. if uri_unreserved cp then [cp] else concat (map percent (utf8 cp))) cps))
       (code_points s)"

section \<open>The application state\<close>

text \<open>
  The fields of \<^verbatim>\<open>EcoRecycleApp\<close> that the synchronisation reads or writes. The
  fields \<^verbatim>\<open>_fetchingPoints\<close> and \<^verbatim>\<open>_lastPointsFetch\<close> are written without their
  leading underscore, and the field \<^verbatim>\<open>id\<close> of a reward and of a notification as
  \<open>rid\<close> and \<open>nid\<close>. A reward keeps \<^verbatim>\<open>p.nombre\<close>, \<^verbatim>\<open>p.puntos_necesarios\<close>
  and \<^verbatim>\<open>p.partner || ''\<close> as the backend sent them; \<^verbatim>\<open>loadRewards\<close> always stores
  a number as its \<open>stock\<close> (the type keeps the \<^verbatim>\<open>?? 0\<close> of the source readable).
\<close>

record reward =
  rid :: jsnum
  name :: "json option"
  points :: "json option"
  stock :: "jsnum option"
  partner :: json

record hentry =
  accion :: "json option"
  detalle :: "json option"
  badge :: jsstring
  delta :: jsnum
  fecha :: jsstring

datatype message = Mensaje json | Canjeaste "json option"

record notification =
  nid :: int
  message :: message
  timestamp :: jsstring

record app =
  activeTab :: jsstring
  userPoints :: jsnum
  userPointsTotal :: jsnum
  notifications :: "notification list"
  fetchingPoints :: bool
  lastPointsFetch :: int
  serverHistory :: "hentry list"
  rewards :: "reward list"

text \<open>The state the constructor leaves.\<close>

definition constructor :: app where
  "constructor = \<lparr> activeTab = js ''scanner'', userPoints = Fin 0, userPointsTotal = Fin 0,
     notifications = [], fetchingPoints = False, lastPointsFetch = 0, serverHistory = [],
     rewards = [] \<rparr>"

text \<open>
  What a method does besides changing the state: the requests it issues and what it
  shows. A text shown to the user is kept as the values it is built from.
\<close>

datatype alert_text = DebesIniciarSesion | NoSePudoCanjear json | ErrorAlCanjear

datatype effect =
    HttpGet jsstring
  | HttpPost jsstring jsstring "json option"
  | ConsoleError
  | Alert alert_text
  | SetText jsstring jsnum
  | RewardsGrid "(reward \<times> bool \<times> bool) list"
  | ShowNotification message

text \<open>A settled promise; a response is the promise that \<^verbatim>\<open>res.json()\<close> returns.\<close>

datatype 'a settled = Rejected | Fulfilled 'a

type_synonym response = "json settled"

definition API_BASE :: jsstring where
  "API_BASE = js ''http://127.0.0.1:8000''"

definition is_request :: "effect \<Rightarrow> bool" where
  "is_request e = (case e of HttpGet u \<Rightarrow> True | HttpPost u c p \<Rightarrow> True | _ \<Rightarrow> False)"

subsection \<open>Rendering\<close>

definition updatePointsDisplay :: "app \<Rightarrow> effect list" where
  "updatePointsDisplay s =
     [SetText (js ''user-points'') (userPoints s),
      SetText (js ''rewards-points'') (userPoints s),
      SetText (js ''total-points-earned'') (userPointsTotal s),
      SetText (js ''user-points-total'') (userPointsTotal s),
      SetText (js ''rewards-points-total'') (userPointsTotal s)]"

text \<open>\<^verbatim>\<open>v ?? 0\<close> on the stock of a reward.\<close>

definition stock_or_0 :: "reward \<Rightarrow> jsnum" where
  "stock_or_0 r = (case stock r of None \<Rightarrow> Fin 0 | Some n \<Rightarrow> n)"

text \<open>
  One card of \<^verbatim>\<open>renderRewards\<close>: the comparison \<^verbatim>\<open>this.userPoints < reward.points\<close>
  and the texts of the name, the cost and the partner placed in the template can each
  throw.
\<close>

definition opt_throws :: "json option \<Rightarrow> bool" where
  "opt_throws v = (case v of None \<Rightarrow> False | Some j \<Rightarrow> ToString_throws j)"

definition reward_card :: "app \<Rightarrow> reward \<Rightarrow> exn + (reward \<times> bool \<times> bool)" where
  "reward_card s r = (case lt_value (userPoints s) (points r) of
       Inl e \<Rightarrow> Inl e
     | Inr sinPuntos \<Rightarrow>
         if opt_throws (name r) \<or> (truthy (Some (partner r)) \<and> ToString_throws (partner r))
            \<or> opt_throws (points r)
         then Inl TypeError
         else Inr (r, sinPuntos, num_le (stock_or_0 r) (Fin 0)))"

fun map_throwing :: "('a \<Rightarrow> exn + 'b) \<Rightarrow> 'a list \<Rightarrow> exn + 'b list" where
  "map_throwing f [] = Inr []"
| "map_throwing f (x # xs) = (case f x of
       Inl e \<Rightarrow> Inl e
     | Inr y \<Rightarrow> (case map_throwing f xs of Inl e \<Rightarrow> Inl e | Inr ys \<Rightarrow> Inr (y # ys)))"

definition renderRewards :: "host \<Rightarrow> app \<Rightarrow> exn option \<times> effect list" where
  "renderRewards h s =
     (if \<not> has_rewards_grid h then (None, [])
      else
        let shown = [SetText (js ''rewards-points'') (userPoints s),
                     SetText (js ''rewards-points-total'') (userPointsTotal s)]
        in (case map_throwing (reward_card s) (rewards s) of
              Inl e \<Rightarrow> (Some e, shown)
            | Inr cards \<Rightarrow> (None, shown @ [RewardsGrid cards])))"

section \<open>\<^verbatim>\<open>fetchPoints\<close>\<close>

text \<open>
  The method runs in two parts. \<open>fetchPoints_begin\<close> is the code up to
  \<^verbatim>\<open>await Promise.all([...])\<close>, run when the method is called: \<open>now\<close> is \<^verbatim>\<open>Date.now()\<close>
  and \<open>correo\<close> is \<^verbatim>\<open>localStorage.getItem('userEmail')\<close>. Its third result says whether
  the call is left waiting for the two responses. \<open>fetchPoints_resume\<close> is the rest of
  the method, run when the responses have arrived: the state is not read between the
  awaits, so the rest runs as one step.
\<close>

definition fetchPoints_begin :: "int \<Rightarrow> jsstring option \<Rightarrow> app \<Rightarrow> app \<times> effect list \<times> bool" where
  "fetchPoints_begin now correo s =
     (if fetchingPoints s then (s, [], False)
      else if now - (if lastPointsFetch s \<noteq> 0 then lastPointsFetch s else 0) < 8000
      then (s, [], False)
      else (case correo of
              None \<Rightarrow> (s, [], False)
            | Some c \<Rightarrow>
                if c = [] then (s, [], False)
                else
                  let s1 = s\<lparr> fetchingPoints := True, lastPointsFetch := now \<rparr>
                  in (case encodeURIComponent c of
                        None \<Rightarrow> (s1\<lparr> fetchingPoints := False \<rparr>, [ConsoleError], False)
                      | Some u \<Rightarrow>
                          (s1,
                           [HttpGet (API_BASE @ js ''/usuarios/'' @ u @ js ''/puntos''),
                            HttpGet (API_BASE @ js ''/usuarios/'' @ u @ js ''/puntos-acumulados'')],
                           True))))"

text \<open>
  The body of the \<^verbatim>\<open>try\<close> after the await: \<open>Some e\<close> when it throws. Each of the two
  fetches rejects (a network failure) or is fulfilled with a response, whose body is
  JSON or not; the HTTP status is never looked at.
\<close>

definition fetchPoints_try ::
  "host \<Rightarrow> response settled \<times> response settled \<Rightarrow> app \<Rightarrow> exn option \<times> app \<times> effect list" where
  "fetchPoints_try h rs s = (case rs of
       (Fulfilled saldoRes, Fulfilled totalRes) \<Rightarrow>
         (case saldoRes of
            Rejected \<Rightarrow> (Some SyntaxError, s, [])
          | Fulfilled saldo \<Rightarrow>
              (case totalRes of
                 Rejected \<Rightarrow> (Some SyntaxError, s, [])
               | Fulfilled total' \<Rightarrow>
                   (case Number (nullish_or (opt_prop saldo (js ''puntos'')) (JNum (Fin 0))) of
                      Inl e \<Rightarrow> (Some e, s, [])
                    | Inr p \<Rightarrow>
                        let s1 = s\<lparr> userPoints := p \<rparr> in
                        (case Number (nullish_or (opt_prop total' (js ''puntos_acumulados''))
                                        (JNum (Fin 0))) of
                           Inl e \<Rightarrow> (Some e, s1, [])
                         | Inr t \<Rightarrow>
                             let s2 = s1\<lparr> userPointsTotal := t \<rparr> in
                             if activeTab s2 = js ''rewards''
                             then (case renderRewards h s2 of
                                     (x, fx) \<Rightarrow> (x, s2, updatePointsDisplay s2 @ fx))
                             else (None, s2, updatePointsDisplay s2)))))
     | _ \<Rightarrow> (Some NetworkError, s, []))"

text \<open>The \<^verbatim>\<open>catch\<close> logs and swallows the exception; the \<^verbatim>\<open>finally\<close> releases the gate.\<close>

definition fetchPoints_resume ::
  "host \<Rightarrow> response settled \<times> response settled \<Rightarrow> app \<Rightarrow> app \<times> effect list" where
  "fetchPoints_resume h rs s = (case fetchPoints_try h rs s of
       (x, s1, fx) \<Rightarrow>
         (s1\<lparr> fetchingPoints := False \<rparr>,
          fx @ (case x of None \<Rightarrow> [] | Some e \<Rightarrow> [ConsoleError])))"

text \<open>One whole call, with nothing else running between its two parts.\<close>

definition fetchPoints ::
  "host \<Rightarrow> int \<Rightarrow> jsstring option \<Rightarrow> response settled \<times> response settled \<Rightarrow> app
     \<Rightarrow> app \<times> effect list" where
  "fetchPoints h now correo rs s = (case fetchPoints_begin now correo s of
       (s1, fx, waiting) \<Rightarrow>
         if waiting then (case fetchPoints_resume h rs s1 of (s2, fx2) \<Rightarrow> (s2, fx @ fx2))
         else (s1, fx))"

subsection \<open>Calls and responses interleaved\<close>

text \<open>
  The event loop runs a call's first part when a trigger fires (the timer, the focus
  event, an explicit call) and its second part when its responses arrive; other calls
  may begin in between. \<open>waiting\<close> counts the calls that await their responses. A
  settle event with no call waiting does nothing. No other method of the class writes
  \<^verbatim>\<open>_fetchingPoints\<close> or \<^verbatim>\<open>_lastPointsFetch\<close>, or requests the two point
  resources, so the other events of the page are left out.
\<close>

datatype event =
    Call int "jsstring option"
  | Settle "response settled \<times> response settled"

record sys =
  the_app :: app
  waiting :: nat

definition step :: "host \<Rightarrow> sys \<Rightarrow> event \<Rightarrow> sys \<times> effect list" where
  "step h q e = (case e of
       Call now correo \<Rightarrow>
         (case fetchPoints_begin now correo (the_app q) of
            (s1, fx, w) \<Rightarrow> (\<lparr> the_app = s1, waiting = (if w then Suc (waiting q) else waiting q) \<rparr>, fx))
     | Settle rs \<Rightarrow>
         (if waiting q = 0 then (q, [])
          else (case fetchPoints_resume h rs (the_app q) of
                  (s1, fx) \<Rightarrow> (\<lparr> the_app = s1, waiting = waiting q - 1 \<rparr>, fx))))"

text \<open>The state after a list of events, and the effects of each event in turn.\<close>

fun after :: "host \<Rightarrow> sys \<Rightarrow> event list \<Rightarrow> sys" where
  "after h q [] = q"
| "after h q (e # es) = after h (fst (step h q e)) es"

fun effects_of :: "host \<Rightarrow> sys \<Rightarrow> event list \<Rightarrow> effect list list" where
  "effects_of h q [] = []"
| "effects_of h q (e # es) = snd (step h q e) # effects_of h (fst (step h q e)) es"

definition dispatches :: "effect list \<Rightarrow> bool" where
  "dispatches fx = list_ex is_request fx"

section \<open>Regular expressions\<close>

text \<open>
  The three patterns of \<^verbatim>\<open>parseDeltaFromDetalle\<close> are run by a backtracking matcher
  that follows the ECMAScript semantics: \<open>matches r (s, c)\<close> lists, in the order
  in which backtracking tries them, the ways \<open>r\<close> can match a prefix of \<open>s\<close>, each
  as the rest of the input and the text of capture group 1. Repetition is greedy, and an
  iteration that matches the empty text is rejected.
\<close>

datatype rx =
    Eps
  | Class "nat \<Rightarrow> bool"
  | Seq rx rx
  | Star rx
  | Opt rx
  | Group rx

type_synonym mstate = "jsstring \<times> jsstring option"

fun matches :: "rx \<Rightarrow> mstate \<Rightarrow> mstate list" where
  "matches Eps st = [st]"
| "matches (Class P) st = (case fst st of [] \<Rightarrow> [] | x # xs \<Rightarrow> if P x then [(xs, snd st)] else [])"
| "matches (Seq r1 r2) st = concat (map (matches r2) (matches r1 st))"
| "matches (Star r) st =
     concat (map (\<lambda>st'. if length (fst st') < length (fst st) then matches (Star r) st' else [])
                 (matches r st)) @ [st]"
| "matches (Opt r) st = filter (\<lambda>st'. length (fst st') < length (fst st)) (matches r st) @ [st]"
| "matches (Group r) st =
     map (\<lambda>st'. (fst st', Some (take (length (fst st) - length (fst st')) (fst st))))
         (matches r st)"

definition Plus :: "rx \<Rightarrow> rx" where
  "Plus r = Seq r (Star r)"

text \<open>
  A letter of the pattern under the flag \<^verbatim>\<open>i\<close>, given by its lower-case code unit: it
  matches itself and its upper-case form, \<open>32\<close> below (for the letters used here,
  \<^verbatim>\<open>a g n o p s t u\<close> and \<^verbatim>\<open>o\<close> with acute accent, no other code unit has the same
  canonical form).
\<close>

definition ci :: "nat \<Rightarrow> rx" where
  "ci c = Class (\<lambda>x. x = c \<or> x + 32 = c)"

definition word_i :: "jsstring \<Rightarrow> rx" where
  "word_i w = foldr (\<lambda>c r. Seq (ci c) r) w Eps"

text \<open>
  One attempt of the matcher at the start of \<open>s\<close>: the first way found, reduced to the
  text of capture group 1 (\<open>None\<close> inside for a group that took no part).
\<close>

definition match_at :: "rx \<Rightarrow> jsstring \<Rightarrow> jsstring option option" where
  "match_at r s = (case matches r (s, None) of [] \<Rightarrow> None | st # sts \<Rightarrow> Some (snd st))"

text \<open>
  \<^verbatim>\<open>s.match(r)\<close> for a pattern without the flag \<^verbatim>\<open>g\<close>: the attempts are made at each
  position from the left, the end of the string included, and the first that succeeds is
  the result. \<open>None\<close> is \<^verbatim>\<open>null\<close>; otherwise the result is \<^verbatim>\<open>m[1]\<close>.
\<close>

fun String_match :: "rx \<Rightarrow> jsstring \<Rightarrow> jsstring option option" where
  "String_match r [] = match_at r []"
| "String_match r (x # xs) =
     (case match_at r (x # xs) of None \<Rightarrow> String_match r xs | Some m \<Rightarrow> Some m)"

text \<open>\<^verbatim>\<open>/\+(\d+)\s*puntos?/i\<close>\<close>

definition escaneo_rx :: rx where
  "escaneo_rx =
     Seq (Class (\<lambda>x. x = 43))
       (Seq (Group (Plus (Class is_digit)))
         (Seq (Star (Class is_space))
           (Seq (word_i (js ''punto'')) (Opt (ci 115)))))"

text \<open>
  \<^verbatim>\<open>/gast[oX]\s+(\d+)\s*pts/i\<close>, where \<^verbatim>\<open>X\<close> stands for the letter \<^verbatim>\<open>o\<close> with an acute
  accent (code unit 243, upper case 211).
\<close>

definition canje_rx :: rx where
  "canje_rx =
     Seq (word_i (js ''gast''))
       (Seq (Class (\<lambda>x. x = 111 \<or> x = 79 \<or> x = 243 \<or> x = 211))
         (Seq (Plus (Class is_space))
           (Seq (Group (Plus (Class is_digit)))
             (Seq (Star (Class is_space)) (word_i (js ''pts''))))))"

text \<open>\<^verbatim>\<open>/([+-]?\d+)/\<close>\<close>

definition generic_rx :: rx where
  "generic_rx = Group (Seq (Opt (Class (\<lambda>x. x = 43 \<or> x = 45))) (Plus (Class is_digit)))"

text \<open>
  \<^verbatim>\<open>parseInt(t, 10)\<close>: leading white space and a sign are skipped, the longest run of
  digits is read, and the result is \<open>NaN\<close> when there is no digit. An \<^verbatim>\<open>undefined\<close>
  argument reads as the text \<^verbatim>\<open>undefined\<close>. The digits denote an integer \<open>n\<close>;
  \<open>mathInt h n\<close> is the integer the host takes for it (\<open>n\<close> itself, or \<open>n\<close> with
  the digits after the 20th replaced by zeros when it has more than 20 digits and the host
  does so), and \<open>parseInt_number h i\<close> is the number returned for the signed integer
  \<open>i\<close>: the binary64 value of that integer, with the sign.
\<close>

definition mathInt :: "host \<Rightarrow> nat \<Rightarrow> nat" where
  "mathInt h n =
     (if parseInt_zeroes_after_20 h \<and> 20 < length (digits n)
      then (n div 10 ^ (length (digits n) - 20)) * 10 ^ (length (digits n) - 20)
      else n)"

definition parseInt_number :: "host \<Rightarrow> int \<Rightarrow> jsnum" where
  "parseInt_number h i =
     (if i < 0 then num_neg (binary64 (of_nat (mathInt h (nat (- i)))))
      else binary64 (of_nat (mathInt h (nat i))))"

definition parseInt10 :: "host \<Rightarrow> jsstring option \<Rightarrow> jsnum" where
  "parseInt10 h t = (case t of
       None \<Rightarrow> NaN
     | Some s \<Rightarrow>
         let u = dropWhile is_space s;
             neg = (case u of c # v \<Rightarrow> c = 45 | [] \<Rightarrow> False);
             v = (case u of c # w \<Rightarrow> if c = 43 \<or> c = 45 then w else u | [] \<Rightarrow> u);
             ds = takeWhile is_digit v
         in if ds = [] then NaN
            else if neg then parseInt_number h (- int (digits_val ds))
            else parseInt_number h (int (digits_val ds)))"

section \<open>The history\<close>

text \<open>
  \<^verbatim>\<open>parseDeltaFromDetalle(accion, detalle)\<close>. A \<open>detalle\<close> that is truthy and not a
  string has no method \<^verbatim>\<open>match\<close>: the call throws.
\<close>

definition parseDeltaFromDetalle :: "host \<Rightarrow> json option \<Rightarrow> json option \<Rightarrow> exn + jsnum" where
  "parseDeltaFromDetalle h accion' detalle' =
     (if \<not> truthy detalle' then Inr (Fin 0)
      else (case detalle' of
              Some (JStr d) \<Rightarrow>
                if accion' = Some (JStr (js ''escaneo'')) then
                  (case String_match escaneo_rx d of
                     None \<Rightarrow> Inr (Fin 0)
                   | Some m1 \<Rightarrow> Inr (parseInt10 h m1))
                else if accion' = Some (JStr (js ''canje'')) then
                  (case String_match canje_rx d of
                     None \<Rightarrow> Inr (Fin 0)
                   | Some m1 \<Rightarrow> Inr (num_neg (parseInt10 h m1)))
                else
                  (case String_match generic_rx d of
                     None \<Rightarrow> Inr (Fin 0)
                   | Some m1 \<Rightarrow> Inr (parseInt10 h m1))
            | _ \<Rightarrow> Inl TypeError))"

definition Ahora :: jsstring where
  "Ahora = js ''Ahora''"

text \<open>
  The time value of \<^verbatim>\<open>new Date(v)\<close>, \<open>None\<close> for an invalid date: a string is parsed
  by the host, a number is clipped and truncated, an array or an object is parsed from
  its text.
\<close>

definition TimeClip :: "jsnum \<Rightarrow> int option" where
  "TimeClip n = (case n of
       Fin q \<Rightarrow> if \<bar>q\<bar> \<le> 8640000000000000 then Some (if 0 \<le> q then \<lfloor>q\<rfloor> else \<lceil>q\<rceil>) else None
     | _ \<Rightarrow> None)"

definition new_Date :: "host \<Rightarrow> json \<Rightarrow> exn + int option" where
  "new_Date h v = (case v of
       JStr s \<Rightarrow> Inr (Date_parse h s)
     | JNum n \<Rightarrow> Inr (TimeClip n)
     | JBool b \<Rightarrow> Inr (Some (if b then 1 else 0))
     | JNull \<Rightarrow> Inr (Some 0)
     | _ \<Rightarrow> if ToString_throws v then Inl TypeError else Inr (Date_parse h (ToString h v)))"

definition formatFecha :: "host \<Rightarrow> json \<Rightarrow> jsstring" where
  "formatFecha h fechaISO = (case new_Date h fechaISO of
       Inl e \<Rightarrow> Ahora
     | Inr None \<Rightarrow> Ahora
     | Inr (Some d) \<Rightarrow> toLocaleString h d)"

text \<open>
  The callback of \<^verbatim>\<open>raw.map\<close> in \<^verbatim>\<open>loadHistoryFromBackend\<close>. The local \<^verbatim>\<open>label\<close> is
  computed by the source and never used; it is left out.
\<close>

definition history_entry :: "host \<Rightarrow> json \<Rightarrow> exn + hentry" where
  "history_entry host h = (case read_prop h (js ''accion'') of
       Inl e \<Rightarrow> Inl e
     | Inr acc \<Rightarrow>
         (case parseDeltaFromDetalle host acc (get_prop h (js ''detalle'')) of
            Inl e \<Rightarrow> Inl e
          | Inr d \<Rightarrow>
              Inr \<lparr> accion = acc,
                    detalle = get_prop h (js ''detalle''),
                    badge = (if num_ge d (Fin 0) then 43 # Number_toString host d
                             else Number_toString host d),
                    delta = d,
                    fecha = (case get_prop h (js ''fecha'') of
                               None \<Rightarrow> Ahora
                             | Some f \<Rightarrow> if truthy (Some f) then formatFecha host f else Ahora) \<rparr>))"

text \<open>
  \<^verbatim>\<open>(a, b) => new Date(b.fecha) - new Date(a.fecha)\<close>: the displayed texts are parsed
  again, and the difference is \<open>NaN\<close> when either is not a date.
\<close>

definition by_fecha :: "host \<Rightarrow> hentry \<Rightarrow> hentry \<Rightarrow> jsnum" where
  "by_fecha h a b = (case (Date_parse h (fecha b), Date_parse h (fecha a)) of
       (Some tb, Some ta) \<Rightarrow> Fin (of_int (tb - ta))
     | _ \<Rightarrow> NaN)"

text \<open>
  \<^verbatim>\<open>Array.prototype.sort\<close> with a comparator. \<open>SortCompare\<close> reads a \<open>NaN\<close> result
  as \<open>0\<close>. The sort is stable; it is modelled as the insertion sort that takes the
  elements in turn and moves each towards the front, past the elements that the comparator
  puts after it, until it meets one that the comparator does not put after it
  (\<open>insert_sorted\<close> works on the sorted part in reverse order). A list in which no element
  is put after its successor is therefore left as it is. (With a comparator that is not
  a consistent order the standard leaves the result to the implementation.)
\<close>

definition SortCompare :: "('a \<Rightarrow> 'a \<Rightarrow> jsnum) \<Rightarrow> 'a \<Rightarrow> 'a \<Rightarrow> jsnum" where
  "SortCompare comparefn x y = (if comparefn x y = NaN then Fin 0 else comparefn x y)"

fun insert_sorted :: "('a \<Rightarrow> 'a \<Rightarrow> jsnum) \<Rightarrow> 'a \<Rightarrow> 'a list \<Rightarrow> 'a list" where
  "insert_sorted comparefn x [] = [x]"
| "insert_sorted comparefn x (y # ys) =
     (if num_lt (Fin 0) (SortCompare comparefn y x) then y # insert_sorted comparefn x ys
      else x # y # ys)"

definition Array_sort :: "('a \<Rightarrow> 'a \<Rightarrow> jsnum) \<Rightarrow> 'a list \<Rightarrow> 'a list" where
  "Array_sort comparefn xs = rev (foldl (\<lambda>acc x. insert_sorted comparefn x acc) [] xs)"

text \<open>\<^verbatim>\<open>(raw || [])\<close> as the receiver of \<^verbatim>\<open>.map\<close>: only an array has the method.\<close>

definition or_empty_array :: "json \<Rightarrow> exn + json list" where
  "or_empty_array raw =
     (if \<not> truthy (Some raw) then Inr []
      else (case raw of JArr xs \<Rightarrow> Inr xs | _ \<Rightarrow> Inl TypeError))"

definition loadHistory_try :: "host \<Rightarrow> response settled \<Rightarrow> app \<Rightarrow> exn option \<times> app" where
  "loadHistory_try h res s = (case res of
       Rejected \<Rightarrow> (Some NetworkError, s)
     | Fulfilled Rejected \<Rightarrow> (Some SyntaxError, s)
     | Fulfilled (Fulfilled raw) \<Rightarrow>
         (case or_empty_array raw of
            Inl e \<Rightarrow> (Some e, s)
          | Inr items \<Rightarrow>
              (case map_throwing (history_entry h) items of
                 Inl e \<Rightarrow> (Some e, s)
               | Inr entries \<Rightarrow>
                   (None, s\<lparr> serverHistory := Array_sort (by_fecha h) entries \<rparr>))))"

text \<open>
  One whole call of \<^verbatim>\<open>loadHistoryFromBackend\<close>: \<open>correo\<close> is the stored user
  identifier and \<open>res\<close> the outcome of the request.
\<close>

definition loadHistoryFromBackend ::
  "host \<Rightarrow> jsstring option \<Rightarrow> response settled \<Rightarrow> app \<Rightarrow> app \<times> effect list" where
  "loadHistoryFromBackend h correo res s = (case correo of
       None \<Rightarrow> (s, [])
     | Some c \<Rightarrow>
         if c = [] then (s, [])
         else (case encodeURIComponent c of
                 None \<Rightarrow> (s, [ConsoleError])
               | Some u \<Rightarrow>
                   (case loadHistory_try h res s of
                      (x, s1) \<Rightarrow>
                        (s1, HttpGet (API_BASE @ js ''/historial/'' @ u)
                             # (case x of None \<Rightarrow> [] | Some e \<Rightarrow> [ConsoleError])))))"

section \<open>Rewards\<close>

text \<open>\<^verbatim>\<open>loadRewards\<close>: the callback of \<^verbatim>\<open>premios.map\<close>, \<open>i\<close> being the index.\<close>

definition reward_of :: "nat \<Rightarrow> json \<Rightarrow> exn + reward" where
  "reward_of i p = (case read_prop p (js ''nombre'') of
       Inl e \<Rightarrow> Inl e
     | Inr nombre \<Rightarrow>
         Inr \<lparr> rid = Fin (of_nat (i + 1)),
               name = nombre,
               points = get_prop p (js ''puntos_necesarios''),
               stock = Some (case get_prop p (js ''stock'') of Some (JNum n) \<Rightarrow> n | _ \<Rightarrow> Fin 0),
               partner = (case get_prop p (js ''partner'') of
                            None \<Rightarrow> JStr []
                          | Some v \<Rightarrow> if truthy (Some v) then v else JStr []) \<rparr>)"

fun rewards_from :: "nat \<Rightarrow> json list \<Rightarrow> exn + reward list" where
  "rewards_from i [] = Inr []"
| "rewards_from i (p # ps) = (case reward_of i p of
       Inl e \<Rightarrow> Inl e
     | Inr r \<Rightarrow> (case rewards_from (Suc i) ps of Inl e \<Rightarrow> Inl e | Inr rs \<Rightarrow> Inr (r # rs)))"

definition loadRewards :: "host \<Rightarrow> response settled \<Rightarrow> app \<Rightarrow> app \<times> effect list" where
  "loadRewards h res s =
     (let req = HttpGet (API_BASE @ js ''/premios'') in
      case res of
        Rejected \<Rightarrow> (s, [req, ConsoleError])
      | Fulfilled Rejected \<Rightarrow> (s, [req, ConsoleError])
      | Fulfilled (Fulfilled premios) \<Rightarrow>
          (case or_empty_array premios of
             Inl e \<Rightarrow> (s, [req, ConsoleError])
           | Inr ps \<Rightarrow>
               (case rewards_from 0 ps of
                  Inl e \<Rightarrow> (s, [req, ConsoleError])
                | Inr rs \<Rightarrow>
                    let s1 = s\<lparr> rewards := rs \<rparr> in
                    (case renderRewards h s1 of
                       (x, fx) \<Rightarrow>
                         (s1, req # fx @ (case x of None \<Rightarrow> [] | Some e \<Rightarrow> [ConsoleError]))))))"

text \<open>
  \<^verbatim>\<open>claimReward(rewardId)\<close>. What the environment supplies to one call: the stored
  user identifier, the outcome of the redemption request, the clock and time text of the
  notification, and the inputs of the nested \<^verbatim>\<open>fetchPoints\<close> and
  \<^verbatim>\<open>loadHistoryFromBackend\<close> calls. The call is run with nothing else in between.
\<close>

record claim_env =
  correo_canje :: "jsstring option"
  res_canje :: "response settled"
  now_notif :: int
  time_notif :: jsstring
  now_points :: int
  correo_points :: "jsstring option"
  res_points :: "response settled \<times> response settled"
  correo_history :: "jsstring option"
  res_history :: "response settled"

text \<open>\<^verbatim>\<open>reward.stock = ...\<close> writes to the object that \<^verbatim>\<open>find\<close> returned, the first with that id.\<close>

fun update_first :: "('a \<Rightarrow> bool) \<Rightarrow> ('a \<Rightarrow> 'a) \<Rightarrow> 'a list \<Rightarrow> 'a list" where
  "update_first P f [] = []"
| "update_first P f (x # xs) = (if P x then f x # xs else x # update_first P f xs)"

text \<open>
  \<^verbatim>\<open>addNotification\<close> stores the notification and calls \<^verbatim>\<open>showNotification\<close>,
  which writes the message to the page when the two elements exist; writing a backend
  value whose text conversion throws raises the exception there.
\<close>

definition addNotification ::
  "host \<Rightarrow> int \<Rightarrow> jsstring \<Rightarrow> message \<Rightarrow> app \<Rightarrow> exn option \<times> app \<times> effect list" where
  "addNotification h now time m s =
     (let s1 = s\<lparr> notifications :=
                  \<lparr> nid = now, message = m, timestamp = time \<rparr> # notifications s \<rparr>
      in if \<not> has_notification_area h then (None, s1, [])
         else (case m of
                 Mensaje v \<Rightarrow>
                   if ToString_throws v then (Some TypeError, s1, [])
                   else (None, s1, [ShowNotification m])
               | Canjeaste n \<Rightarrow> (None, s1, [ShowNotification m])))"

text \<open>
  The statements of the \<^verbatim>\<open>try\<close> after a redemption that the backend accepted, from
  the stock update on.
\<close>

definition claim_accepted ::
  "host \<Rightarrow> claim_env \<Rightarrow> jsnum \<Rightarrow> reward \<Rightarrow> json \<Rightarrow> app \<Rightarrow> exn option \<times> app \<times> effect list" where
  "claim_accepted h env rewardId r data s =
     (let s1 = s\<lparr> rewards := update_first (\<lambda>x. num_eq (rid x) rewardId)
                   (\<lambda>x. x\<lparr> stock := Some (Math_max0 (num_sub (stock_or_0 x) (Fin 1))) \<rparr>) (rewards s) \<rparr>
      in if \<not> truthy (get_prop data (js ''mensaje'')) \<and> opt_throws (name r) then (Some TypeError, s1, [])
         else
           let m = (case get_prop data (js ''mensaje'') of
                      None \<Rightarrow> Canjeaste (name r)
                    | Some v \<Rightarrow> if truthy (Some v) then Mensaje v else Canjeaste (name r))
           in (case addNotification h (now_notif env) (time_notif env) m s1 of
                 (Some e, s2, fx2) \<Rightarrow> (Some e, s2, fx2)
               | (None, s2, fx2) \<Rightarrow>
                   (case fetchPoints h (now_points env) (correo_points env) (res_points env) s2 of
                      (s3, fx3) \<Rightarrow>
                        (case loadHistoryFromBackend h (correo_history env) (res_history env) s3 of
                           (s4, fx4) \<Rightarrow>
                             (case renderRewards h s4 of
                                (Some e, fx5) \<Rightarrow> (Some e, s4, fx2 @ fx3 @ fx4 @ fx5)
                              | (None, fx5) \<Rightarrow>
                                  (case renderRewards h s4 of
                                     (x, fx6) \<Rightarrow> (x, s4, fx2 @ fx3 @ fx4 @ fx5 @ fx6)))))))"

definition claim_try ::
  "host \<Rightarrow> claim_env \<Rightarrow> jsnum \<Rightarrow> reward \<Rightarrow> app \<Rightarrow> exn option \<times> app \<times> effect list" where
  "claim_try h env rewardId r s = (case correo_canje env of
       None \<Rightarrow> (None, s, [Alert DebesIniciarSesion])
     | Some c \<Rightarrow>
         if c = [] then (None, s, [Alert DebesIniciarSesion])
         else
           let req = HttpPost (API_BASE @ js ''/puntos/canjear'') c (name r) in
           (case res_canje env of
              Rejected \<Rightarrow> (Some NetworkError, s, [req])
            | Fulfilled Rejected \<Rightarrow> (Some SyntaxError, s, [req])
            | Fulfilled (Fulfilled data) \<Rightarrow>
                (case read_prop data (js ''error'') of
                   Inl e \<Rightarrow> (Some e, s, [req])
                 | Inr err \<Rightarrow>
                     if truthy err then
                       (case err of
                          Some v \<Rightarrow> if ToString_throws v then (Some TypeError, s, [req])
                                    else (None, s, [req, Alert (NoSePudoCanjear v)])
                        | None \<Rightarrow> (None, s, [req]))
                     else (case claim_accepted h env rewardId r data s of
                             (x, s1, fx) \<Rightarrow> (x, s1, req # fx)))))"

text \<open>
  The whole method. The three guards stand before the \<^verbatim>\<open>try\<close>: an exception of the
  comparison \<^verbatim>\<open>this.userPoints < reward.points\<close> leaves the method (first result
  \<open>Some e\<close>); an exception inside the \<^verbatim>\<open>try\<close> is logged and reported by an alert.
\<close>

definition claimReward ::
  "host \<Rightarrow> claim_env \<Rightarrow> jsnum \<Rightarrow> app \<Rightarrow> exn option \<times> app \<times> effect list" where
  "claimReward h env rewardId s = (case find (\<lambda>r. num_eq (rid r) rewardId) (rewards s) of
       None \<Rightarrow> (None, s, [])
     | Some r \<Rightarrow>
         if num_le (stock_or_0 r) (Fin 0) then (None, s, [])
         else (case lt_value (userPoints s) (points r) of
                 Inl e \<Rightarrow> (Some e, s, [])
               | Inr sinPuntos \<Rightarrow>
                   if sinPuntos then (None, s, [])
                   else (case claim_try h env rewardId r s of
                           (None, s1, fx) \<Rightarrow> (None, s1, fx)
                         | (Some e, s1, fx) \<Rightarrow> (None, s1, fx @ [ConsoleError, Alert ErrorAlCanjear]))))"

section \<open>The delta of an entry as three rules\<close>

text \<open>
  The three rules for the delta, written as scans of the text without any pattern
  matcher, to be compared with \<open>parseDeltaFromDetalle\<close>. \<open>scan_first p s\<close> is what
  \<open>p\<close> finds at the leftmost position of \<open>s\<close> where it finds something.
\<close>

fun scan_first :: "(jsstring \<Rightarrow> 'a option) \<Rightarrow> jsstring \<Rightarrow> 'a option" where
  "scan_first p [] = p []"
| "scan_first p (x # xs) = (case p (x # xs) of None \<Rightarrow> scan_first p xs | Some v \<Rightarrow> Some v)"

text \<open>\<open>w\<close>, given in lower case, begins \<open>s\<close> up to the case of the letters.\<close>

fun ci_prefix :: "jsstring \<Rightarrow> jsstring \<Rightarrow> bool" where
  "ci_prefix [] s = True"
| "ci_prefix (c # w) [] = False"
| "ci_prefix (c # w) (x # s) = ((x = c \<or> x + 32 = c) \<and> ci_prefix w s)"

text \<open>
  Earn: a plus sign, digits, then (after optional white space) the letters \<^verbatim>\<open>punto\<close>
  in any case. What comes after the letters is not looked at: an \<^verbatim>\<open>s\<close>, the end of
  the text, or more letters. The result is the digits.
\<close>

definition scan_escaneo_at :: "jsstring \<Rightarrow> jsstring option" where
  "scan_escaneo_at s = (case s of
       [] \<Rightarrow> None
     | c # r \<Rightarrow>
         if c = 43 \<and> takeWhile is_digit r \<noteq> []
            \<and> ci_prefix (js ''punto'') (dropWhile is_space (dropWhile is_digit r))
         then Some (takeWhile is_digit r) else None)"

text \<open>
  Redeem: \<^verbatim>\<open>gasto\<close> in any case, its last letter with or without the acute accent,
  white space, digits, then (after optional white space) \<^verbatim>\<open>pts\<close> in any case. The
  result is the digits.
\<close>

definition scan_canje_at :: "jsstring \<Rightarrow> jsstring option" where
  "scan_canje_at s =
     (if ci_prefix (js ''gast'') s then
        (case drop 4 s of
           [] \<Rightarrow> None
         | c # r \<Rightarrow>
             if (c = 111 \<or> c = 79 \<or> c = 243 \<or> c = 211)
                \<and> takeWhile is_space r \<noteq> []
                \<and> takeWhile is_digit (dropWhile is_space r) \<noteq> []
                \<and> ci_prefix (js ''pts'')
                     (dropWhile is_space (dropWhile is_digit (dropWhile is_space r)))
             then Some (takeWhile is_digit (dropWhile is_space r)) else None)
      else None)"

text \<open>Other: a signed integer literal, that is digits with an optional sign before them.\<close>

definition scan_generic_at :: "jsstring \<Rightarrow> jsstring option" where
  "scan_generic_at s = (case s of
       [] \<Rightarrow> None
     | c # r \<Rightarrow>
         if (c = 43 \<or> c = 45) \<and> takeWhile is_digit r \<noteq> [] then Some (c # takeWhile is_digit r)
         else if is_digit c then Some (takeWhile is_digit (c # r))
         else None)"

text \<open>The integer that digits with an optional sign denote, and the delta of the rules.\<close>

definition scan_value :: "jsstring \<Rightarrow> int" where
  "scan_value t = (case t of
       [] \<Rightarrow> 0
     | c # r \<Rightarrow>
         if c = 45 then - int (digits_val r)
         else if c = 43 then int (digits_val r)
         else int (digits_val (c # r)))"

definition scan_delta :: "json option \<Rightarrow> jsstring \<Rightarrow> int" where
  "scan_delta accion' d =
     (if accion' = Some (JStr (js ''escaneo'')) then
        (case scan_first scan_escaneo_at d of None \<Rightarrow> 0 | Some t \<Rightarrow> scan_value t)
      else if accion' = Some (JStr (js ''canje'')) then
        (case scan_first scan_canje_at d of None \<Rightarrow> 0 | Some t \<Rightarrow> - scan_value t)
      else
        (case scan_first scan_generic_at d of None \<Rightarrow> 0 | Some t \<Rightarrow> scan_value t))"

subsection \<open>The rule for \<^verbatim>\<open>escaneo\<close> as the specification words it\<close>

text \<open>
  The specification asks for the digits of the first \<^verbatim>\<open>+<digits>\<close> followed by the
  word \<^verbatim>\<open>punto\<close> or \<^verbatim>\<open>puntos\<close>, and takes the integer they denote. A word ends
  where the text ends or where the next code unit is not a letter, a digit or an
  underscore. The other two rules are taken as \<open>scan_delta\<close> has them.
\<close>

definition is_word_char :: "nat \<Rightarrow> bool" where
  "is_word_char c = (is_digit c \<or> (65 \<le> c \<and> c \<le> 90) \<or> (97 \<le> c \<and> c \<le> 122) \<or> c = 95)"

definition word_ends :: "jsstring \<Rightarrow> bool" where
  "word_ends s = (case s of [] \<Rightarrow> True | c # r \<Rightarrow> \<not> is_word_char c)"

definition claimed_escaneo_at :: "jsstring \<Rightarrow> jsstring option" where
  "claimed_escaneo_at s = (case s of
       [] \<Rightarrow> None
     | c # r \<Rightarrow>
         let w = dropWhile is_space (dropWhile is_digit r)
         in if c = 43 \<and> takeWhile is_digit r \<noteq> []
               \<and> ((ci_prefix (js ''punto'') w \<and> word_ends (drop 5 w))
                    \<or> (ci_prefix (js ''puntos'') w \<and> word_ends (drop 6 w)))
            then Some (takeWhile is_digit r) else None)"

definition claimed_delta :: "json option \<Rightarrow> jsstring \<Rightarrow> int" where
  "claimed_delta accion' d =
     (if accion' = Some (JStr (js ''escaneo'')) then
        (case scan_first claimed_escaneo_at d of None \<Rightarrow> 0 | Some t \<Rightarrow> scan_value t)
      else scan_delta accion' d)"

section \<open>Sample data\<close>

text \<open>
  A host used to run the model on concrete inputs: its dates are written as the number
  of milliseconds, which it reads back; every page element is present.
\<close>

definition sample_host :: host where
  "sample_host = \<lparr> Date_parse = (\<lambda>s. if s \<noteq> [] \<and> list_all is_digit s then Some (int (digits_val s)) else None),
     toLocaleString = decimal,
     Number_text = (\<lambda>q. js ''?''),
     parseInt_zeroes_after_20 = False,
     has_rewards_grid = True,
     has_notification_area = True \<rparr>"

definition idle :: sys where
  "idle = \<lparr> the_app = constructor, waiting = 0 \<rparr>"

definition ana :: jsstring where
  "ana = js ''ana@eco.co''"

text \<open>Two raw history entries, the second without a date, and a reward of 100 points.\<close>

definition raw_escaneo :: json where
  "raw_escaneo = JObj [(js ''accion'', JStr (js ''escaneo'')),
     (js ''detalle'', JStr (js ''+5 puntos por reciclaje'')),
     (js ''fecha'', JStr (js ''1700000000000''))]"

definition gasto_150 :: jsstring where
  "gasto_150 = js ''Gast'' @ 243 # js '' 150 pts por: Entrada cine''"

definition raw_canje :: json where
  "raw_canje = JObj [(js ''accion'', JStr (js ''canje'')), (js ''detalle'', JStr gasto_150)]"

definition entry_escaneo :: hentry where
  "entry_escaneo = \<lparr> accion = Some (JStr (js ''escaneo'')),
     detalle = Some (JStr (js ''+5 puntos por reciclaje'')),
     badge = js ''+5'', delta = Fin 5, fecha = js ''1700000000000'' \<rparr>"

definition entry_canje :: hentry where
  "entry_canje = \<lparr> accion = Some (JStr (js ''canje'')),
     detalle = Some (JStr gasto_150),
     badge = js ''-150'', delta = Fin (- 150), fecha = Ahora \<rparr>"

definition cine :: reward where
  "cine = \<lparr> rid = Fin 1, name = Some (JStr (js ''Entrada cine'')), points = Some (JNum (Fin 100)),
     stock = Some (Fin 3), partner = JStr [] \<rparr>"

definition shop :: app where
  "shop = constructor\<lparr> userPoints := Fin 40, userPointsTotal := Fin 90, rewards := [cine],
     serverHistory := [entry_escaneo] \<rparr>"

definition sample_env :: claim_env where
  "sample_env = \<lparr> correo_canje = Some ana,
     res_canje = Fulfilled (Fulfilled (JObj [(js ''mensaje'', JStr (js ''Canje exitoso''))])),
     now_notif = 1700000000500, time_notif = js ''10:13:20'',
     now_points = 1700000000600, correo_points = Some ana,
     res_points = (Fulfilled (Fulfilled (JObj [(js ''puntos'', JNum (Fin 0))])),
                   Fulfilled (Fulfilled (JObj [(js ''puntos_acumulados'', JNum (Fin 90))]))),
     correo_history = Some ana,
     res_history = Fulfilled (Fulfilled (JArr [raw_canje])) \<rparr>"

section \<open>Properties of the rounding\<close>

lemma floor_rat_numeral: "\<lfloor>(numeral a :: rat) / numeral b\<rfloor> = numeral a div numeral b"
  using floor_divide_of_int_eq[of "numeral a" "numeral b", where ?'a=rat] by simp

lemma round_half_even_int: "round_half_even (of_int n) = n"
  by (simp add: round_half_even_def)

lemma round_at_exact:
  assumes "e \<le> 0" and "of_int n < (2 :: rat) ^ 1024"
  shows "round_at e (of_int n) = Fin (of_int n)"
proof -
  have p: "pow2 e = 1 / 2 ^ nat (- e)"
    using assms(1) by (cases "e = 0") (simp_all add: pow2_def)
  have "of_int n / pow2 e = (of_int (n * 2 ^ nat (- e)) :: rat)"
    by (simp add: p)
  then have r: "round_half_even (of_int n / pow2 e) = n * 2 ^ nat (- e)"
    by (simp only: round_half_even_int)
  have v: "of_int (n * 2 ^ nat (- e)) * pow2 e = (of_int n :: rat)"
    by (simp add: p)
  have "\<not> (2 :: rat) ^ 1024 \<le> of_int n"
    using assms(2) by (simp only: not_le)
  then show ?thesis
    unfolding round_at_def Let_def r v by (simp only: if_False)
qed

lemma bitlen_0: "bitlen 0 = 0"
  by (subst bitlen.simps) simp

lemma bitlen_pos: "0 < n \<Longrightarrow> bitlen n = Suc (bitlen (n div 2))"
  by (subst bitlen.simps) simp

lemma bitlen_bounds: "0 < n \<Longrightarrow> 2 ^ (bitlen n - 1) \<le> n \<and> n < 2 ^ bitlen n"
proof (induction n rule: less_induct)
  case (less n)
  have b: "bitlen n = Suc (bitlen (n div 2))"
    using less.prems by (rule bitlen_pos)
  show ?case
  proof (cases "n div 2 = 0")
    case True
    then have "n = 1" using less.prems by linarith
    then show ?thesis using b True by (simp add: bitlen_0)
  next
    case False
    then have h: "n div 2 < n" "0 < n div 2"
      using less.prems by simp_all
    have ih: "2 ^ (bitlen (n div 2) - 1) \<le> n div 2 \<and> n div 2 < 2 ^ bitlen (n div 2)"
      using less.IH[OF h] .
    obtain k where k: "bitlen (n div 2) = Suc k"
      using bitlen_pos[OF h(2)] by simp
    have "2 * 2 ^ k \<le> n" "n < 2 * 2 ^ Suc k"
      using ih unfolding k by simp_all linarith+
    then show ?thesis
      unfolding b k by simp
  qed
qed

lemma bitlen_le: "n < 2 ^ k \<Longrightarrow> bitlen n \<le> k"
proof (cases "n = 0")
  case True
  then show ?thesis by (simp add: bitlen_0)
next
  case False
  assume a: "n < 2 ^ k"
  have "(2::nat) ^ (bitlen n - 1) \<le> n"
    using bitlen_bounds[of n] False by simp
  then have "(2::nat) ^ (bitlen n - 1) < 2 ^ k"
    using a by linarith
  then have "bitlen n - 1 < k"
    using power_strict_increasing_iff[of "2::nat" "bitlen n - 1" k] by simp
  then show ?thesis by linarith
qed

lemma floor_log2_nat:
  assumes "0 < n"
  shows "floor_log2 (of_nat n) = int (bitlen n) - 1"
proof -
  have q: "quotient_of (of_nat n :: rat) = (int n, 1)"
    using quotient_of_int[of "int n"] by simp
  have b1: "bitlen (Suc 0) = 1"
    by (simp add: bitlen.simps)
  have "(2::nat) ^ (bitlen n - 1) \<le> n"
    using bitlen_bounds[OF assms] by simp
  then have "(of_nat (2 ^ (bitlen n - 1)) :: rat) \<le> of_nat n"
    by (simp only: of_nat_le_iff)
  moreover have "0 < bitlen n"
    using bitlen_pos[OF assms] by simp
  ultimately have "pow2 (int (bitlen n) - 1) \<le> of_nat n"
    by (simp add: pow2_def nat_diff_distrib')
  then show ?thesis
    by (simp add: floor_log2_def q Let_def b1)
qed

lemma binary64_nat_exact:
  assumes "n \<le> 2 ^ 53"
  shows "binary64 (of_nat n) = Fin (of_nat n)"
proof (cases "n = 0")
  case True
  then show ?thesis by (simp add: binary64_def)
next
  case False
  then have pos: "0 < n" by simp
  have lt: "(of_int (int n) :: rat) < 2 ^ 1024"
  proof -
    have "n < 2 ^ 1024" using assms by (rule le_less_trans) simp
    then have "(of_nat n :: rat) < of_nat (2 ^ 1024)" by (simp only: of_nat_less_iff)
    then show ?thesis by simp
  qed
  show ?thesis
  proof (cases "n = 2 ^ 53")
    case True
    then show ?thesis
      by (simp add: binary64_def floor_log2_def round_at_def round_half_even_def pow2_def Let_def
          bitlen.simps floor_rat_numeral)
  next
    case ne: False
    then have "n < 2 ^ 53" using assms by simp
    then have "bitlen n \<le> 53" by (rule bitlen_le)
    then have e: "max (floor_log2 (of_nat n) - 52) (- 1074) \<le> 0"
      using floor_log2_nat[OF pos] by simp
    have "round_at (max (floor_log2 (of_nat n) - 52) (- 1074)) (of_int (int n)) = Fin (of_int (int n))"
      using e lt by (rule round_at_exact)
    then show ?thesis
      using pos by (simp add: binary64_def)
  qed
qed

lemma round_half_even_ge: "\<lfloor>x\<rfloor> \<le> round_half_even x"
  by (simp add: round_half_even_def Let_def)

lemma binary64_overflow:
  assumes "2 ^ 1024 \<le> n"
  shows "binary64 (of_nat n) = PosInf"
proof -
  have pos: "0 < n"
    using assms by (rule less_le_trans[rotated]) simp
  have b: "2 ^ (bitlen n - 1) \<le> n" "n < 2 ^ bitlen n"
    using bitlen_bounds[OF pos] by simp_all
  have "(2::nat) ^ 1024 < 2 ^ bitlen n"
    using assms b(2) by linarith
  then have l: "1024 < bitlen n"
    using power_strict_increasing_iff[of "2::nat" 1024 "bitlen n"] by simp
  define e where "e = bitlen n - 53"
  have e: "max (floor_log2 (of_nat n) - 52) (- 1074) = int e"
    using floor_log2_nat[OF pos] l by (simp add: e_def)
  have p: "pow2 (int e) = 2 ^ e"
    by (simp add: pow2_def)
  have split: "bitlen n - 1 = 52 + e"
    using l by (simp add: e_def)
  have "(of_nat (2 ^ (52 + e)) :: rat) \<le> of_nat n"
    using b(1) unfolding split by (simp only: of_nat_le_iff)
  then have q: "(2 :: rat) ^ 52 * 2 ^ e \<le> of_nat n"
    by (simp only: of_nat_power of_nat_numeral of_nat_mult power_add)
  then have "(2 :: rat) ^ 52 \<le> of_nat n / 2 ^ e"
    by (simp add: pos_le_divide_eq)
  then have "(of_int (2 ^ 52) :: rat) \<le> of_nat n / 2 ^ e"
    by simp
  then have "(2 :: int) ^ 52 \<le> \<lfloor>(of_nat n :: rat) / 2 ^ e\<rfloor>"
    by (simp only: le_floor_iff)
  then have "(2 :: int) ^ 52 \<le> round_half_even (of_nat n / 2 ^ e)"
    using round_half_even_ge[of "of_nat n / 2 ^ e"] by linarith
  then have "(of_int (2 ^ 52) :: rat) \<le> of_int (round_half_even (of_nat n / 2 ^ e))"
    by (simp only: of_int_le_iff)
  then have m: "(2 :: rat) ^ 52 \<le> of_int (round_half_even (of_nat n / 2 ^ e))"
    by simp
  have "(2 :: rat) ^ 1024 \<le> 2 ^ (52 + e)"
    using l by (intro power_increasing) (simp_all add: e_def)
  also have "\<dots> = 2 ^ 52 * 2 ^ e"
    by (simp add: power_add)
  also have "\<dots> \<le> of_int (round_half_even (of_nat n / 2 ^ e)) * 2 ^ e"
    using m by (intro mult_right_mono) simp_all
  finally have "(2 :: rat) ^ 1024 \<le> of_int (round_half_even (of_nat n / 2 ^ e)) * 2 ^ e" .
  then have "round_at (int e) (of_nat n) = PosInf"
    unfolding round_at_def Let_def p by (simp only: if_True)
  then show ?thesis
    using pos e by (simp add: binary64_def)
qed

lemma binary64_not_NaN: "binary64 q \<noteq> NaN"
proof -
  have "round_at e x \<noteq> NaN" "num_neg (round_at e x) \<noteq> NaN" for e x
    by (simp_all add: round_at_def Let_def)
  then show ?thesis
    by (simp add: binary64_def)
qed

lemma digits_length: "0 < k \<Longrightarrow> n < 10 ^ k \<Longrightarrow> length (digits n) \<le> k"
proof (induction k arbitrary: n)
  case 0
  then show ?case by simp
next
  case (Suc k)
  show ?case
  proof (cases "n < 10")
    case True
    then have "digits n = [48 + n]"
      by (subst digits.simps) simp
    then show ?thesis by simp
  next
    case False
    then have d: "digits n = digits (n div 10) @ [48 + n mod 10]"
      by (subst digits.simps) simp
    have k: "0 < k"
      using False Suc.prems(2) by (cases k) simp_all
    have "n div 10 < 10 ^ k"
      using Suc.prems(2) by (simp add: less_mult_imp_div_less mult.commute)
    then have "length (digits (n div 10)) \<le> k"
      using Suc.IH[OF k] by simp
    then show ?thesis
      unfolding d by simp
  qed
qed

lemma mathInt_small: "n \<le> 2 ^ 53 \<Longrightarrow> mathInt h n = n"
proof -
  assume "n \<le> 2 ^ 53"
  then have "n < 10 ^ 20"
    by (rule le_less_trans) simp
  then have "length (digits n) \<le> 20"
    using digits_length[of 20 n] by simp
  then show ?thesis
    by (simp add: mathInt_def del: digits.simps)
qed

lemma parseInt_number_exact: "\<bar>i\<bar> \<le> 2 ^ 53 \<Longrightarrow> parseInt_number h i = Fin (of_int i)"
proof -
  assume a: "\<bar>i\<bar> \<le> 2 ^ 53"
  show ?thesis
  proof (cases "i < 0")
    case True
    then have n: "nat (- i) \<le> 2 ^ 53"
      using a by (simp add: nat_le_iff)
    have "(of_nat (nat (- i)) :: rat) = - of_int i"
      using True by simp
    then show ?thesis
      using True mathInt_small[OF n, of h] binary64_nat_exact[OF n]
      by (simp add: parseInt_number_def)
  next
    case False
    then have n: "nat i \<le> 2 ^ 53"
      using a by (simp add: nat_le_iff)
    have "(of_nat (nat i) :: rat) = of_int i"
      using False by simp
    then show ?thesis
      using False mathInt_small[OF n, of h] binary64_nat_exact[OF n]
      by (simp add: parseInt_number_def)
  qed
qed

lemma parseInt_number_not_NaN: "parseInt_number h i \<noteq> NaN"
proof -
  have "num_neg x \<noteq> NaN" if "x \<noteq> NaN" for x
    using that by (cases x) simp_all
  then show ?thesis
    using binary64_not_NaN by (simp add: parseInt_number_def)
qed

lemma parseInt_number_neg:
  "0 \<le> i \<Longrightarrow> num_neg (parseInt_number h i) = parseInt_number h (- i)"
proof -
  assume a: "0 \<le> i"
  show ?thesis
  proof (cases "i = 0")
    case True
    have "mathInt h 0 = 0"
      by (rule mathInt_small) simp
    then show ?thesis
      using True by (simp add: parseInt_number_def binary64_def)
  next
    case False
    then show ?thesis
      using a by (simp add: parseInt_number_def)
  qed
qed


section \<open>Properties of \<^verbatim>\<open>fetchPoints\<close>\<close>

lemma resume_frame:
  "lastPointsFetch (fst (fetchPoints_resume h rs s)) = lastPointsFetch s"
  "fetchingPoints (fst (fetchPoints_resume h rs s)) = False"
  by (auto simp: fetchPoints_resume_def fetchPoints_try_def Let_def
           split: prod.splits settled.splits sum.splits if_splits)

lemma begin_cases:
  "fetchPoints_begin now correo s = (s', fx, w) \<Longrightarrow>
     (s' = s \<and> fx = [] \<and> \<not> w)
   \<or> (\<not> fetchingPoints s \<and> 8000 \<le> now - lastPointsFetch s \<and> \<not> w \<and> fx = [ConsoleError]
        \<and> s' = s\<lparr> fetchingPoints := False, lastPointsFetch := now \<rparr>)
   \<or> (\<not> fetchingPoints s \<and> 8000 \<le> now - lastPointsFetch s \<and> w \<and> dispatches fx
        \<and> s' = s\<lparr> fetchingPoints := True, lastPointsFetch := now \<rparr>)"
  by (auto simp: fetchPoints_begin_def Let_def dispatches_def is_request_def
           split: if_splits option.splits)

lemma step_last_mono:
  "lastPointsFetch (the_app q) \<le> lastPointsFetch (the_app (fst (step h q e)))"
proof (cases e)
  case (Call now correo)
  obtain s' fx w where b: "fetchPoints_begin now correo (the_app q) = (s', fx, w)"
    by (cases "fetchPoints_begin now correo (the_app q)") auto
  from begin_cases[OF b] show ?thesis
    using Call b by (auto simp: step_def)
next
  case (Settle rs)
  then show ?thesis
    using resume_frame(1)[where h=h and rs=rs and s="the_app q"]
    by (auto simp: step_def split: prod.splits)
qed

lemma after_last_mono:
  "lastPointsFetch (the_app q) \<le> lastPointsFetch (the_app (after h q es))"
proof (induction es arbitrary: q)
  case Nil
  show ?case by simp
next
  case (Cons e es)
  have "lastPointsFetch (the_app q) \<le> lastPointsFetch (the_app (fst (step h q e)))"
    by (rule step_last_mono)
  also have "\<dots> \<le> lastPointsFetch (the_app (after h (fst (step h q e)) es))"
    by (rule Cons.IH)
  finally show ?case by simp
qed

lemma after_append: "after h q (xs @ ys) = after h (after h q xs) ys"
  by (induction xs arbitrary: q) auto

lemma effects_of_nth:
  "j < length es \<Longrightarrow> effects_of h q es ! j = snd (step h (after h q (take j es)) (es ! j))"
proof (induction es arbitrary: q j)
  case Nil
  then show ?case by simp
next
  case (Cons e es)
  then show ?case by (cases j) auto
qed

lemma call_dispatch_sets_last:
  assumes d: "dispatches (snd (step h q (Call t c)))"
  shows "lastPointsFetch (the_app (fst (step h q (Call t c)))) = t"
proof -
  obtain s' fx w where b: "fetchPoints_begin t c (the_app q) = (s', fx, w)"
    by (cases "fetchPoints_begin t c (the_app q)") auto
  from begin_cases[OF b] d b show ?thesis
    by (auto simp: step_def dispatches_def)
qed

lemma call_inside_window:
  "t - lastPointsFetch (the_app q) < 8000 \<Longrightarrow> \<not> dispatches (snd (step h q (Call t c)))"
  by (auto simp: step_def fetchPoints_begin_def dispatches_def split: prod.splits)

text \<open>
  Once a call has dispatched at time \<open>ti\<close>, the stored time of the last started fetch
  never falls below \<open>ti\<close>, so no later call within 8000 ms of \<open>ti\<close> dispatches.
\<close>

lemma two_calls:
  assumes ij: "i < j" and j: "j < length es"
    and ei: "es ! i = Call ti ui" and ej: "es ! j = Call tj uj"
    and near: "tj - ti < 8000"
    and di: "dispatches (effects_of h q es ! i)"
  shows "\<not> dispatches (effects_of h q es ! j)"
proof -
  let ?qi = "after h q (take i es)"
  let ?qi' = "fst (step h ?qi (Call ti ui))"
  have i: "i < length es" using ij j by simp
  have "dispatches (snd (step h ?qi (Call ti ui)))"
    using di effects_of_nth[OF i, where h=h and q=q] ei by simp
  then have last_i: "lastPointsFetch (the_app ?qi') = ti"
    by (rule call_dispatch_sets_last)
  have "take j es = take i es @ es ! i # drop (Suc i) (take j es)"
  proof -
    have "i < length (take j es)" using ij j by simp
    from id_take_nth_drop[OF this] show ?thesis using ij by simp
  qed
  then have "after h q (take j es) = after h ?qi' (drop (Suc i) (take j es))"
    using ei by (metis after.simps(2) after_append)
  then have "ti \<le> lastPointsFetch (the_app (after h q (take j es)))"
    using after_last_mono[where h=h and q="?qi'" and es="drop (Suc i) (take j es)"] last_i
    by simp
  then have "tj - lastPointsFetch (the_app (after h q (take j es))) < 8000"
    using near by linarith
  then have "\<not> dispatches (snd (step h (after h q (take j es)) (Call tj uj)))"
    by (rule call_inside_window)
  then show ?thesis
    using effects_of_nth[OF j, where h=h and q=q] ej by simp
qed

lemma gate_held_inv:
  "(fetchingPoints (the_app q) \<longrightarrow> 0 < waiting q) \<Longrightarrow>
   (fetchingPoints (the_app (after h q es)) \<longrightarrow> 0 < waiting (after h q es))"
proof (induction es arbitrary: q)
  case Nil
  then show ?case by simp
next
  case (Cons e es)
  have "fetchingPoints (the_app (fst (step h q e))) \<longrightarrow> 0 < waiting (fst (step h q e))"
  proof (cases e)
    case (Call now correo)
    obtain s' fx w where b: "fetchPoints_begin now correo (the_app q) = (s', fx, w)"
      by (cases "fetchPoints_begin now correo (the_app q)") auto
    from begin_cases[OF b] show ?thesis
      using Call b Cons.prems by (auto simp: step_def)
  next
    case (Settle rs)
    then show ?thesis
      using resume_frame(2)[where h=h and rs=rs and s="the_app q"] Cons.prems
      by (auto simp: step_def split: prod.splits)
  qed
  from Cons.IH[OF this] show ?case by simp
qed

lemma encode_ana: "encodeURIComponent ana = Some (js ''ana%40eco.co'')"
  by (simp add: ana_def js_def encodeURIComponent_def is_high_surrogate_def
      is_low_surrogate_def uri_unreserved_def utf8_def percent_def hex_digit_def)

lemma ana_not_empty: "ana \<noteq> []"
  by (simp add: ana_def js_def)

lemma begin_ana:
  "fetchPoints_begin 1700000000000 (Some ana) constructor =
     (constructor\<lparr> fetchingPoints := True, lastPointsFetch := 1700000000000 \<rparr>,
      [HttpGet (API_BASE @ js ''/usuarios/'' @ js ''ana%40eco.co'' @ js ''/puntos''),
       HttpGet (API_BASE @ js ''/usuarios/'' @ js ''ana%40eco.co'' @ js ''/puntos-acumulados'')],
      True)"
  by (simp add: fetchPoints_begin_def encode_ana ana_not_empty) (simp add: constructor_def)

text \<open>
  C1. Of two calls of \<^verbatim>\<open>fetchPoints\<close> that begin less than 8000 ms apart, whatever
  calls and responses come before, between and after them, at most one dispatches the
  two read requests (the hypothesis \<open>tj - ti < 8000\<close> on the later call includes every
  pair less than 8000 ms apart). A call made while a fetch is in flight, or within 8000 ms
  of the last started fetch, changes nothing and requests nothing; and a call that does
  dispatch has set both gate fields in the state it leaves at the await.
\<close>

theorem fetchPoints_throttle_exclusivity:
  "(i < j \<and> j < length es \<and> es ! i = Call ti ui \<and> es ! j = Call tj uj \<and> tj - ti < 8000
      \<longrightarrow> \<not> (dispatches (effects_of h q es ! i) \<and> dispatches (effects_of h q es ! j)))
   \<and> (fetchingPoints s \<or> now - lastPointsFetch s < 8000
      \<longrightarrow> fetchPoints_begin now correo s = (s, [], False))
   \<and> (dispatches (fst (snd (fetchPoints_begin now correo s)))
      \<longrightarrow> fetchingPoints (fst (fetchPoints_begin now correo s))
          \<and> lastPointsFetch (fst (fetchPoints_begin now correo s)) = now)"
proof (intro conjI impI)
  assume "i < j \<and> j < length es \<and> es ! i = Call ti ui \<and> es ! j = Call tj uj \<and> tj - ti < 8000"
  then show "\<not> (dispatches (effects_of h q es ! i) \<and> dispatches (effects_of h q es ! j))"
    using two_calls[of i j es ti ui tj uj h q] by blast
next
  assume "fetchingPoints s \<or> now - lastPointsFetch s < 8000"
  then show "fetchPoints_begin now correo s = (s, [], False)"
    by (auto simp: fetchPoints_begin_def)
next
  assume d: "dispatches (fst (snd (fetchPoints_begin now correo s)))"
  obtain s' fx w where b: "fetchPoints_begin now correo s = (s', fx, w)"
    by (cases "fetchPoints_begin now correo s") auto
  from begin_cases[OF b] d b
  show "fetchingPoints (fst (fetchPoints_begin now correo s))"
    by (auto simp: dispatches_def is_request_def)
  from begin_cases[OF b] d b
  show "lastPointsFetch (fst (fetchPoints_begin now correo s)) = now"
    by (auto simp: dispatches_def is_request_def)
qed

theorem fetchPoints_throttle_exclusivity_witness:
  "dispatches (effects_of sample_host idle
      [Call 1700000000000 (Some ana), Call 1700000005000 (Some ana)] ! 0)
   \<and> \<not> dispatches (effects_of sample_host idle
      [Call 1700000000000 (Some ana), Call 1700000005000 (Some ana)] ! 1)"
proof -
  let ?es = "[Call 1700000000000 (Some ana), Call 1700000005000 (Some ana)]"
  have d0: "dispatches (effects_of sample_host idle ?es ! 0)"
    by (simp add: step_def idle_def begin_ana dispatches_def is_request_def)
  from fetchPoints_throttle_exclusivity[where i=0 and j=1 and es="?es" and ti=1700000000000
      and tj=1700000005000 and ui="Some ana" and uj="Some ana" and h=sample_host and q=idle] d0
  show ?thesis by simp
qed

text \<open>
  C8, as stated, fails: a call that returns early because another call is in flight
  ends with \<^verbatim>\<open>_fetchingPoints\<close> still true. This is so in any state with the flag
  set, and in particular in the state that a first call, dispatched half a second
  earlier and still awaiting its responses, has left.
\<close>

theorem gate_release_counterexample:
  "fetchingPoints (fst (fetchPoints sample_host 1700000000000 (Some ana) (Rejected, Rejected)
      (constructor\<lparr> fetchingPoints := True \<rparr>)))
   \<and> fetchingPoints (fst (fetchPoints sample_host 1700000000500 (Some ana) (Rejected, Rejected)
      (the_app (after sample_host idle [Call 1700000000000 (Some ana)]))))"
proof -
  have "the_app (after sample_host idle [Call 1700000000000 (Some ana)])
      = constructor\<lparr> fetchingPoints := True, lastPointsFetch := 1700000000000 \<rparr>"
    by (simp add: step_def idle_def begin_ana)
  then show ?thesis
    by (simp add: fetchPoints_def fetchPoints_begin_def)
qed

text \<open>
  C8, amended. The second part of a call, whatever the responses and whatever happened
  since the call began, ends with \<^verbatim>\<open>_fetchingPoints\<close> false; so does every whole call
  that starts with the flag false, be it successful, failed, or an early return inside the
  window or without a user. A call that starts with the flag true returns at once and
  leaves it true: the flag is then held by a call that still awaits its responses (in
  every state reached from a state where this is so), and that call releases it.
\<close>

theorem gate_release:
  "\<not> fetchingPoints (fst (fetchPoints_resume h rs s))
   \<and> (\<not> fetchingPoints s \<longrightarrow> \<not> fetchingPoints (fst (fetchPoints h now correo rs s)))
   \<and> (fetchingPoints s \<longrightarrow> fetchPoints h now correo rs s = (s, []))
   \<and> ((fetchingPoints (the_app q) \<longrightarrow> 0 < waiting q)
        \<longrightarrow> (fetchingPoints (the_app (after h q es)) \<longrightarrow> 0 < waiting (after h q es)))"
proof (intro conjI impI)
  show "\<not> fetchingPoints (fst (fetchPoints_resume h rs s))"
    by (simp add: resume_frame)
next
  assume f: "\<not> fetchingPoints s"
  obtain s' fx w where b: "fetchPoints_begin now correo s = (s', fx, w)"
    by (cases "fetchPoints_begin now correo s") auto
  show "\<not> fetchingPoints (fst (fetchPoints h now correo rs s))"
  proof (cases w)
    case True
    then show ?thesis
      using b resume_frame(2)[where h=h and rs=rs and s=s']
      by (auto simp: fetchPoints_def split: prod.splits)
  next
    case False
    with begin_cases[OF b] f b show ?thesis
      by (auto simp: fetchPoints_def)
  qed
next
  assume "fetchingPoints s"
  then show "fetchPoints h now correo rs s = (s, [])"
    by (simp add: fetchPoints_def fetchPoints_begin_def)
next
  assume "fetchingPoints (the_app q) \<longrightarrow> 0 < waiting q"
    and "fetchingPoints (the_app (after h q es))"
  then show "0 < waiting (after h q es)"
    using gate_held_inv[where q=q and h=h and es=es] by blast
qed

theorem gate_release_witness:
  "\<not> fetchingPoints (fst (fetchPoints sample_host 1700000000000 (Some ana) (Rejected, Rejected)
        constructor))
   \<and> fetchPoints sample_host 1700000000000 (Some ana) (Rejected, Rejected)
        (constructor\<lparr> fetchingPoints := True \<rparr>) = (constructor\<lparr> fetchingPoints := True \<rparr>, [])
   \<and> 0 < waiting (after sample_host idle [Call 1700000000000 (Some ana)])"
proof -
  have a: "\<not> fetchingPoints constructor"
    by (simp add: constructor_def)
  have b: "fetchingPoints (constructor\<lparr> fetchingPoints := True \<rparr>)"
    by simp
  have c: "fetchingPoints (the_app idle) \<longrightarrow> 0 < waiting idle"
    by (simp add: idle_def constructor_def)
  have d: "fetchingPoints (the_app (after sample_host idle [Call 1700000000000 (Some ana)]))"
    by (simp add: step_def idle_def begin_ana)
  show ?thesis
    using gate_release[where h=sample_host and rs="(Rejected, Rejected)" and s=constructor
        and now=1700000000000 and correo="Some ana" and q=idle
        and es="[Call 1700000000000 (Some ana)]"]
      gate_release[where h=sample_host and rs="(Rejected, Rejected)"
        and s="constructor\<lparr> fetchingPoints := True \<rparr>"
        and now=1700000000000 and correo="Some ana" and q=idle and es="[]"]
      a b c d
    by blast
qed

text \<open>
  C10. A call that passes both throttle checks and finds no stored user identifier
  (\<^verbatim>\<open>null\<close> or the empty string) returns with the state as it was, so
  \<^verbatim>\<open>_fetchingPoints\<close> is false and \<^verbatim>\<open>_lastPointsFetch\<close> is unchanged, and issues no
  request. A later call decides as if the unauthenticated call had not been made; in
  particular a later call with a user identifier dispatches, however soon it follows.
\<close>

theorem unauthenticated_call_keeps_window:
  "\<not> fetchingPoints s \<and> 8000 \<le> now - lastPointsFetch s \<and> (correo = None \<or> correo = Some [])
   \<longrightarrow> fetchPoints h now correo rs s = (s, [])
       \<and> \<not> fetchingPoints (fst (fetchPoints h now correo rs s))
       \<and> lastPointsFetch (fst (fetchPoints h now correo rs s)) = lastPointsFetch s
       \<and> fetchPoints_begin now' correo' (fst (fetchPoints h now correo rs s))
           = fetchPoints_begin now' correo' s
       \<and> (now \<le> now' \<and> c \<noteq> [] \<and> encodeURIComponent c \<noteq> None
           \<longrightarrow> dispatches (fst (snd (fetchPoints_begin now' (Some c)
                  (fst (fetchPoints h now correo rs s))))))"
proof (intro impI)
  assume a: "\<not> fetchingPoints s \<and> 8000 \<le> now - lastPointsFetch s
     \<and> (correo = None \<or> correo = Some [])"
  then have noop: "fetchPoints h now correo rs s = (s, [])"
    by (auto simp: fetchPoints_def fetchPoints_begin_def)
  have later: "dispatches (fst (snd (fetchPoints_begin now' (Some c) s)))"
    if "now \<le> now' \<and> c \<noteq> [] \<and> encodeURIComponent c \<noteq> None"
    using that a
    by (auto simp: fetchPoints_begin_def Let_def dispatches_def is_request_def)
  show "fetchPoints h now correo rs s = (s, [])
       \<and> \<not> fetchingPoints (fst (fetchPoints h now correo rs s))
       \<and> lastPointsFetch (fst (fetchPoints h now correo rs s)) = lastPointsFetch s
       \<and> fetchPoints_begin now' correo' (fst (fetchPoints h now correo rs s))
           = fetchPoints_begin now' correo' s
       \<and> (now \<le> now' \<and> c \<noteq> [] \<and> encodeURIComponent c \<noteq> None
           \<longrightarrow> dispatches (fst (snd (fetchPoints_begin now' (Some c)
                  (fst (fetchPoints h now correo rs s))))))"
    using a later by (simp add: noop)
qed

theorem unauthenticated_call_keeps_window_witness:
  "fetchPoints sample_host 1700000000000 None (Rejected, Rejected) constructor = (constructor, [])
   \<and> dispatches (fst (snd (fetchPoints_begin 1700000001000 (Some ana)
        (fst (fetchPoints sample_host 1700000000000 None (Rejected, Rejected) constructor)))))"
proof -
  have a: "\<not> fetchingPoints constructor \<and> 8000 \<le> 1700000000000 - lastPointsFetch constructor"
    by (simp add: constructor_def)
  have b: "(1700000000000 :: int) \<le> 1700000001000 \<and> ana \<noteq> [] \<and> encodeURIComponent ana \<noteq> None"
    by (simp add: encode_ana ana_not_empty)
  show ?thesis
    using unauthenticated_call_keeps_window[where s=constructor and now=1700000000000
        and correo=None and h=sample_host and rs="(Rejected, Rejected)" and now'=1700000001000
        and c=ana] a b
    by blast
qed

lemma try_read_failure:
  assumes "fst rs = Rejected \<or> snd rs = Rejected \<or> fst rs = Fulfilled Rejected
     \<or> snd rs = Fulfilled Rejected"
  shows "\<exists>e. fetchPoints_try h rs s = (Some e, s, [])"
  using assms by (cases rs) (auto simp: fetchPoints_try_def split: settled.splits)

lemma begin_frame:
  "userPoints (fst (fetchPoints_begin now correo s)) = userPoints s"
  "userPointsTotal (fst (fetchPoints_begin now correo s)) = userPointsTotal s"
  by (auto simp: fetchPoints_begin_def Let_def split: option.splits)

lemma resume_read_failure:
  assumes "fst rs = Rejected \<or> snd rs = Rejected \<or> fst rs = Fulfilled Rejected
     \<or> snd rs = Fulfilled Rejected"
  shows "fetchPoints_resume h rs s = (s\<lparr> fetchingPoints := False \<rparr>, [ConsoleError])"
  using try_read_failure[OF assms, of h s] by (auto simp: fetchPoints_resume_def)

lemma loadHistory_failure:
  "fst (loadHistory_try h res s) \<noteq> None \<Longrightarrow> snd (loadHistory_try h res s) = s"
  by (auto simp: loadHistory_try_def split: settled.splits sum.splits)

text \<open>
  What does hold when a read fails. A read of \<^verbatim>\<open>fetchPoints\<close> whose fetch rejects
  (a network failure), or whose response has a body that does not parse, throws before
  the two assignments. Then the call, and the second part of the call in any state,
  leaves \<^verbatim>\<open>userPoints\<close> and \<^verbatim>\<open>userPointsTotal\<close> as they were; the exception ends in
  the \<^verbatim>\<open>catch\<close>, which logs it, and nothing else is done. Likewise a
  \<^verbatim>\<open>loadHistoryFromBackend\<close> whose request rejects, whose body does not parse, or
  whose \<^verbatim>\<open>try\<close> throws for any other reason leaves the whole state, and with it
  \<^verbatim>\<open>serverHistory\<close>, unchanged.
\<close>

theorem keep_last_known_good:
  "(fst rs = Rejected \<or> snd rs = Rejected \<or> fst rs = Fulfilled Rejected
      \<or> snd rs = Fulfilled Rejected
    \<longrightarrow> userPoints (fst (fetchPoints h now correo rs s)) = userPoints s
        \<and> userPointsTotal (fst (fetchPoints h now correo rs s)) = userPointsTotal s
        \<and> fetchPoints_resume h rs s = (s\<lparr> fetchingPoints := False \<rparr>, [ConsoleError]))
   \<and> (res = Rejected \<or> res = Fulfilled Rejected \<or> fst (loadHistory_try h res s) \<noteq> None
    \<longrightarrow> fst (loadHistoryFromBackend h correo res s) = s
        \<and> serverHistory (fst (loadHistoryFromBackend h correo res s)) = serverHistory s)"
proof (intro conjI impI)
  assume f: "fst rs = Rejected \<or> snd rs = Rejected \<or> fst rs = Fulfilled Rejected
      \<or> snd rs = Fulfilled Rejected"
  obtain s1 fx w where b: "fetchPoints_begin now correo s = (s1, fx, w)"
    by (cases "fetchPoints_begin now correo s") auto
  have s1: "userPoints s1 = userPoints s" "userPointsTotal s1 = userPointsTotal s"
    using begin_frame[of now correo s] b by simp_all
  show "userPoints (fst (fetchPoints h now correo rs s)) = userPoints s"
    using b s1 resume_read_failure[OF f, of h s1] by (simp add: fetchPoints_def)
  show "userPointsTotal (fst (fetchPoints h now correo rs s)) = userPointsTotal s"
    using b s1 resume_read_failure[OF f, of h s1] by (simp add: fetchPoints_def)
  show "fetchPoints_resume h rs s = (s\<lparr> fetchingPoints := False \<rparr>, [ConsoleError])"
    by (rule resume_read_failure[OF f])
next
  assume "res = Rejected \<or> res = Fulfilled Rejected \<or> fst (loadHistory_try h res s) \<noteq> None"
  then have "fst (loadHistory_try h res s) \<noteq> None"
    by (auto simp: loadHistory_try_def)
  then have "snd (loadHistory_try h res s) = s"
    by (rule loadHistory_failure)
  then show same: "fst (loadHistoryFromBackend h correo res s) = s"
    by (auto simp: loadHistoryFromBackend_def split: option.splits prod.splits)
  then show "serverHistory (fst (loadHistoryFromBackend h correo res s)) = serverHistory s"
    by simp
qed

theorem keep_last_known_good_witness:
  "userPoints (fst (fetchPoints sample_host 1700000000000 (Some ana)
       (Rejected, Fulfilled (Fulfilled (JObj [(js ''puntos_acumulados'', JNum (Fin 95))]))) shop))
     = Fin 40
   \<and> userPointsTotal (fst (fetchPoints sample_host 1700000000000 (Some ana)
       (Rejected, Fulfilled (Fulfilled (JObj [(js ''puntos_acumulados'', JNum (Fin 95))]))) shop))
     = Fin 90
   \<and> serverHistory (fst (loadHistoryFromBackend sample_host (Some ana) (Fulfilled Rejected) shop))
     = [entry_escaneo]"
proof -
  have a: "userPoints shop = Fin 40" "userPointsTotal shop = Fin 90"
    "serverHistory shop = [entry_escaneo]"
    by (simp_all add: shop_def)
  show ?thesis
    using keep_last_known_good[where h=sample_host and now=1700000000000 and correo="Some ana"
        and rs="(Rejected, Fulfilled (Fulfilled (JObj [(js ''puntos_acumulados'', JNum (Fin 95))])))"
        and s=shop and res="Fulfilled Rejected"] a
    by simp
qed

text \<open>
  C2 fails on the code for a read that fails with an HTTP error status and a body that
  parses. \<^verbatim>\<open>fetchPoints\<close> never looks at \<^verbatim>\<open>res.ok\<close> (as
  \<^verbatim>\<open>sendImageForClassification\<close> and \<^verbatim>\<open>Api.request\<close> do), so the error object, which
  has no field \<^verbatim>\<open>puntos\<close>, is read as a balance of \<open>0\<close>. With a balance of 40 and a
  total of 90, a balance read answered by \<^verbatim>\<open>{"error": "Usuario no encontrado"}\<close> next
  to a total read answered by \<^verbatim>\<open>{"puntos_acumulados": 95}\<close> ends with a balance of
  \<open>0\<close> and a total of 95; nothing is logged.
\<close>

theorem http_error_body_resets_balance:
  "userPoints shop = Fin 40 \<and> userPointsTotal shop = Fin 90
   \<and> userPoints (fst (fetchPoints sample_host 1700000000000 (Some ana)
        (Fulfilled (Fulfilled (JObj [(js ''error'', JStr (js ''Usuario no encontrado''))])),
         Fulfilled (Fulfilled (JObj [(js ''puntos_acumulados'', JNum (Fin 95))]))) shop)) = Fin 0
   \<and> userPointsTotal (fst (fetchPoints sample_host 1700000000000 (Some ana)
        (Fulfilled (Fulfilled (JObj [(js ''error'', JStr (js ''Usuario no encontrado''))])),
         Fulfilled (Fulfilled (JObj [(js ''puntos_acumulados'', JNum (Fin 95))]))) shop)) = Fin 95
   \<and> ConsoleError \<notin> set (snd (fetchPoints sample_host 1700000000000 (Some ana)
        (Fulfilled (Fulfilled (JObj [(js ''error'', JStr (js ''Usuario no encontrado''))])),
         Fulfilled (Fulfilled (JObj [(js ''puntos_acumulados'', JNum (Fin 95))]))) shop))"
proof -
  have b: "fetchPoints_begin 1700000000000 (Some ana) shop
      = (shop\<lparr> fetchingPoints := True, lastPointsFetch := 1700000000000 \<rparr>,
         [HttpGet (API_BASE @ js ''/usuarios/'' @ js ''ana%40eco.co'' @ js ''/puntos''),
          HttpGet (API_BASE @ js ''/usuarios/'' @ js ''ana%40eco.co'' @ js ''/puntos-acumulados'')],
         True)"
    using ana_not_empty by (simp add: fetchPoints_begin_def shop_def constructor_def encode_ana)
  have k: "js ''error'' \<noteq> js ''puntos''"
    by (simp add: js_def)
  have t: "activeTab shop \<noteq> js ''rewards''"
    by (simp add: shop_def constructor_def js_def)
  show ?thesis
    using k t
    by (simp add: fetchPoints_def b fetchPoints_resume_def fetchPoints_try_def Number_def
        opt_prop_def nullish_or_def Let_def updatePointsDisplay_def)
      (simp add: shop_def)
qed

text \<open>
  C6 fails on the code for a field that holds a text that is not a number: the call
  completes and the balance becomes \<open>NaN\<close>, not \<open>0\<close>. (A missing field does give \<open>0\<close>,
  here in the cumulative total.)
\<close>

theorem non_numeric_balance_becomes_NaN:
  "userPoints (fst (fetchPoints_resume h
       (Fulfilled (Fulfilled (JObj [(js ''puntos'', JStr (js ''abc''))])),
        Fulfilled (Fulfilled (JObj []))) s)) = NaN
   \<and> userPointsTotal (fst (fetchPoints_resume h
       (Fulfilled (Fulfilled (JObj [(js ''puntos'', JStr (js ''abc''))])),
        Fulfilled (Fulfilled (JObj []))) s)) = Fin 0"
proof -
  have n: "StringToNumber (js ''abc'') = NaN"
    by (simp add: StringToNumber_def js_def trim_def is_space_def non_decimal_def
        unsigned_decimal_def is_digit_def)
  show ?thesis
    by (simp add: fetchPoints_resume_def fetchPoints_try_def Number_def opt_prop_def
        nullish_or_def n Let_def split: prod.splits)
qed

text \<open>
  C9. When no reward of the list has the id, or the reward found has a stock that is
  \<open>\<le> 0\<close>, or the balance is below its cost (and its stock did not already end the
  call), \<^verbatim>\<open>claimReward\<close> returns normally with the state unchanged and with no effect at
  all, so no request is issued.
\<close>

theorem claimReward_guard:
  "(\<forall>r \<in> set (rewards s). \<not> num_eq (rid r) rewardId)
   \<or> (\<exists>r. find (\<lambda>r. num_eq (rid r) rewardId) (rewards s) = Some r
          \<and> (num_le (stock_or_0 r) (Fin 0) \<or> lt_value (userPoints s) (points r) = Inr True))
   \<longrightarrow> claimReward h env rewardId s = (None, s, [])"
proof
  assume "(\<forall>r \<in> set (rewards s). \<not> num_eq (rid r) rewardId)
   \<or> (\<exists>r. find (\<lambda>r. num_eq (rid r) rewardId) (rewards s) = Some r
          \<and> (num_le (stock_or_0 r) (Fin 0) \<or> lt_value (userPoints s) (points r) = Inr True))"
  then show "claimReward h env rewardId s = (None, s, [])"
  proof
    assume "\<forall>r \<in> set (rewards s). \<not> num_eq (rid r) rewardId"
    then have "find (\<lambda>r. num_eq (rid r) rewardId) (rewards s) = None"
      by (simp add: find_None_iff)
    then show ?thesis by (simp add: claimReward_def)
  next
    assume "\<exists>r. find (\<lambda>r. num_eq (rid r) rewardId) (rewards s) = Some r
          \<and> (num_le (stock_or_0 r) (Fin 0) \<or> lt_value (userPoints s) (points r) = Inr True)"
    then show ?thesis by (auto simp: claimReward_def)
  qed
qed

theorem claimReward_guard_witness:
  "claimReward sample_host sample_env (Fin 1) shop = (None, shop, [])
   \<and> claimReward sample_host sample_env (Fin 2) shop = (None, shop, [])"
proof -
  have a: "find (\<lambda>r. num_eq (rid r) (Fin 1)) (rewards shop) = Some cine"
    by (simp add: shop_def cine_def num_eq_def)
  have b: "lt_value (userPoints shop) (points cine) = Inr True"
    by (simp add: shop_def cine_def lt_value_def)
  have c: "\<forall>r \<in> set (rewards shop). \<not> num_eq (rid r) (Fin 2)"
    by (simp add: shop_def cine_def num_eq_def)
  show ?thesis
    using claimReward_guard[where s=shop and rewardId="Fin 1" and h=sample_host and env=sample_env]
      claimReward_guard[where s=shop and rewardId="Fin 2" and h=sample_host and env=sample_env]
      a b c
    by blast
qed

section \<open>Properties of the patterns\<close>

lemma digit_not_space: "is_digit x \<Longrightarrow> \<not> is_space x"
  by (auto simp: is_digit_def is_space_def)

lemma star_class_Nil: "matches (Star (Class P)) ([], c) = [([], c)]"
  by simp

lemma star_class_Cons:
  "matches (Star (Class P)) (x # xs, c)
     = (if P x then matches (Star (Class P)) (xs, c) @ [(x # xs, c)] else [(x # xs, c)])"
  by simp

lemma star_then:
  assumes "\<And>x xs c'. P x \<Longrightarrow> matches r2 (x # xs, c') = []"
  shows "concat (map (matches r2) (matches (Star (Class P)) (s, c))) = matches r2 (dropWhile P s, c)"
  by (induction s) (auto simp: assms)

lemma star_then_capture:
  assumes "\<And>x xs c'. P x \<Longrightarrow> matches r2 (x # xs, c') = []"
  shows "concat (map (\<lambda>st'. matches r2 (fst st', Some (g (fst st'))))
            (matches (Star (Class P)) (s, c)))
       = matches r2 (dropWhile P s, Some (g (dropWhile P s)))"
  by (induction s) (auto simp: assms)

lemma star_first:
  "\<exists>sts. matches (Star (Class P)) (s, c) = (dropWhile P s, c) # sts"
  by (induction s) (auto simp del: matches.simps simp add: star_class_Nil star_class_Cons)

lemma take_before_dropWhile:
  "take (Suc (length xs) - length (dropWhile P xs)) (x # xs) = x # takeWhile P xs"
proof -
  have "length (dropWhile P xs) \<le> length xs"
    by (rule length_dropWhile_le)
  then have "Suc (length xs) - length (dropWhile P xs) = Suc (length xs - length (dropWhile P xs))"
    by simp
  moreover have "length xs - length (dropWhile P xs) = length (takeWhile P xs)"
  proof -
    have "length (takeWhile P xs) + length (dropWhile P xs) = length xs"
      by (simp only: length_append[symmetric] takeWhile_dropWhile_id)
    then show ?thesis by simp
  qed
  ultimately show ?thesis
    by (simp add: takeWhile_eq_take[symmetric])
qed

lemma seq_star:
  assumes "\<And>x xs c'. P x \<Longrightarrow> matches r2 (x # xs, c') = []"
  shows "matches (Seq (Star (Class P)) r2) (s, c) = matches r2 (dropWhile P s, c)"
  using star_then[OF assms] by simp

lemma seq_plus:
  assumes "\<And>x xs c'. P x \<Longrightarrow> matches r2 (x # xs, c') = []"
  shows "matches (Seq (Plus (Class P)) r2) (s, c)
       = (if takeWhile P s = [] then [] else matches r2 (dropWhile P s, c))"
proof (cases s)
  case Nil
  then show ?thesis by (simp add: Plus_def)
next
  case (Cons x xs)
  show ?thesis
  proof (cases "P x")
    case True
    then show ?thesis
      using Cons star_then[OF assms, where s=xs and c=c] by (simp add: Plus_def)
  next
    case False
    then show ?thesis using Cons by (simp add: Plus_def)
  qed
qed

lemma seq_group_plus:
  assumes "\<And>x xs c'. P x \<Longrightarrow> matches r2 (x # xs, c') = []"
  shows "matches (Seq (Group (Plus (Class P))) r2) (s, c)
       = (if takeWhile P s = [] then [] else matches r2 (dropWhile P s, Some (takeWhile P s)))"
proof (cases s)
  case Nil
  then show ?thesis by (simp add: Plus_def)
next
  case (Cons x xs)
  show ?thesis
  proof (cases "P x")
    case True
    have "matches (Seq (Group (Plus (Class P))) r2) (x # xs, c)
        = concat (map (\<lambda>st'. matches r2
              (fst st', Some (take (Suc (length xs) - length (fst st')) (x # xs))))
            (matches (Star (Class P)) (xs, c)))"
      using True by (simp add: Plus_def comp_def)
    also have "\<dots> = matches r2 (dropWhile P xs,
        Some (take (Suc (length xs) - length (dropWhile P xs)) (x # xs)))"
      by (rule star_then_capture[OF assms])
    finally show ?thesis
      using True Cons by (simp add: take_before_dropWhile)
  next
    case False
    then show ?thesis using Cons by (simp add: Plus_def)
  qed
qed

lemma matches_word_i:
  "matches (word_i w) (s, c) = (if ci_prefix w s then [(drop (length w) s, c)] else [])"
proof (induction w arbitrary: s)
  case Nil
  show ?case by (simp add: word_i_def)
next
  case (Cons a w)
  have step: "word_i (a # w) = Seq (ci a) (word_i w)"
    by (simp add: word_i_def)
  show ?case
  proof (cases s)
    case Nil
    then show ?thesis by (simp add: step ci_def)
  next
    case (Cons x xs)
    then show ?thesis
      using Cons.IH[of xs] by (simp add: step ci_def)
  qed
qed

lemma seq_word_i:
  "matches (Seq (word_i w) r2) (s, c)
     = (if ci_prefix w s then matches r2 (drop (length w) s, c) else [])"
  by (simp add: matches_word_i)

lemma match_at_Nil: "matches r (s, None) = [] \<Longrightarrow> match_at r s = None"
  by (simp add: match_at_def)

lemma match_at_Cons: "matches r (s, None) = (t, c) # sts \<Longrightarrow> match_at r s = Some c"
  by (simp add: match_at_def)

lemma opt_first: "\<exists>t sts. matches (Opt (Class P)) (s, c) = (t, c) # sts"
  by (cases s) auto

lemma punto_letter: "ci_prefix (js ''punto'') (x # xs) \<Longrightarrow> x = 112 \<or> x = 80"
  by (auto simp: js_def)

lemma pts_letter: "ci_prefix (js ''pts'') (x # xs) \<Longrightarrow> x = 112 \<or> x = 80"
  by (auto simp: js_def)

lemma not_p: "is_digit x \<or> is_space x \<Longrightarrow> x \<noteq> 112 \<and> x \<noteq> 80"
  by (auto simp: is_digit_def is_space_def)

lemma match_at_escaneo: "match_at escaneo_rx s = map_option Some (scan_escaneo_at s)"
proof -
  let ?w = "js ''punto''"
  let ?t2 = "Seq (word_i ?w) (Opt (ci 115))"
  let ?t1 = "Seq (Star (Class is_space)) ?t2"
  have t2: "matches ?t2 (u, c) = (if ci_prefix ?w u then matches (Opt (ci 115)) (drop (length ?w) u, c) else [])"
    for u c
    by (rule seq_word_i)
  have t2_fail: "matches ?t2 (x # xs, c') = []" if "is_digit x \<or> is_space x" for x xs c'
  proof -
    have "\<not> ci_prefix ?w (x # xs)"
      using that punto_letter[of x xs] not_p[of x] by blast
    then show ?thesis by (simp only: t2 if_False)
  qed
  have t1: "matches ?t1 (u, c) = matches ?t2 (dropWhile is_space u, c)" for u c
    by (rule seq_star) (simp del: matches.simps add: t2_fail)
  have t1_fail: "matches ?t1 (x # xs, c') = []" if "is_digit x" for x xs c'
    using that digit_not_space[of x] by (simp del: matches.simps add: t1 t2_fail)
  have g: "matches (Seq (Group (Plus (Class is_digit))) ?t1) (r, c)
      = (if takeWhile is_digit r = [] then []
         else matches ?t1 (dropWhile is_digit r, Some (takeWhile is_digit r)))" for r c
    by (rule seq_group_plus) (rule t1_fail)
  show ?thesis
  proof (cases s)
    case Nil
    then show ?thesis
      by (simp add: match_at_def escaneo_rx_def scan_escaneo_at_def)
  next
    case (Cons c0 r)
    have whole: "matches escaneo_rx (a # u, None)
        = (if a = 43 then matches (Seq (Group (Plus (Class is_digit))) ?t1) (u, None) else [])"
      for a u
      by (simp add: escaneo_rx_def)
    show ?thesis
    proof (cases "c0 = 43 \<and> takeWhile is_digit r \<noteq> []
        \<and> ci_prefix ?w (dropWhile is_space (dropWhile is_digit r))")
      case True
      obtain t sts where "matches (Opt (ci 115))
          (drop (length ?w) (dropWhile is_space (dropWhile is_digit r)), Some (takeWhile is_digit r))
          = (t, Some (takeWhile is_digit r)) # sts"
        using opt_first unfolding ci_def by blast
      then have "matches escaneo_rx (c0 # r, None) = (t, Some (takeWhile is_digit r)) # sts"
        using True by (simp del: matches.simps add: whole g t1 t2)
      then have "match_at escaneo_rx (c0 # r) = Some (Some (takeWhile is_digit r))"
        by (rule match_at_Cons)
      then show ?thesis
        using True Cons by (simp add: scan_escaneo_at_def)
    next
      case False
      then have "matches escaneo_rx (c0 # r, None) = []"
        by (auto simp del: matches.simps simp add: whole g t1 t2)
      then have "match_at escaneo_rx (c0 # r) = None"
        by (rule match_at_Nil)
      then show ?thesis
        using False Cons by (auto simp: scan_escaneo_at_def)
    qed
  qed
qed

lemma match_at_canje: "match_at canje_rx s = map_option Some (scan_canje_at s)"
proof -
  let ?p3 = "word_i (js ''pts'')"
  let ?t3 = "Seq (Star (Class is_space)) ?p3"
  let ?t2 = "Seq (Group (Plus (Class is_digit))) ?t3"
  let ?t1 = "Seq (Plus (Class is_space)) ?t2"
  let ?o = "\<lambda>x :: nat. x = 111 \<or> x = 79 \<or> x = 243 \<or> x = 211"
  have p3_fail: "matches ?p3 (x # xs, c') = []" if "is_digit x \<or> is_space x" for x xs c'
  proof -
    have "\<not> ci_prefix (js ''pts'') (x # xs)"
      using that pts_letter[of x xs] not_p[of x] by blast
    then show ?thesis by (simp only: matches_word_i if_False)
  qed
  have t3: "matches ?t3 (u, c) = matches ?p3 (dropWhile is_space u, c)" for u c
    by (rule seq_star) (simp del: matches.simps add: p3_fail)
  have t3_fail: "matches ?t3 (x # xs, c') = []" if "is_digit x" for x xs c'
    using that digit_not_space[of x] by (simp del: matches.simps add: t3 p3_fail)
  have t2: "matches ?t2 (u, c)
      = (if takeWhile is_digit u = [] then []
         else matches ?t3 (dropWhile is_digit u, Some (takeWhile is_digit u)))" for u c
    by (rule seq_group_plus) (rule t3_fail)
  have t2_fail: "matches ?t2 (x # xs, c') = []" if "is_space x" for x xs c'
    using that digit_not_space[of x] by (auto simp del: matches.simps simp add: t2)
  have t1: "matches ?t1 (u, c)
      = (if takeWhile is_space u = [] then [] else matches ?t2 (dropWhile is_space u, c))" for u c
    by (rule seq_plus) (rule t2_fail)
  have whole: "matches canje_rx (u, None)
      = (if ci_prefix (js ''gast'') u
         then (case drop 4 u of [] \<Rightarrow> [] | c # r \<Rightarrow> if ?o c then matches ?t1 (r, None) else [])
         else [])" for u
  proof -
    have "matches canje_rx (u, None)
        = (if ci_prefix (js ''gast'') u
           then matches (Seq (Class ?o) ?t1) (drop (length (js ''gast'')) u, None) else [])"
      unfolding canje_rx_def by (rule seq_word_i)
    moreover have "length (js ''gast'') = 4"
      by (simp add: js_def)
    moreover have "matches (Seq (Class ?o) ?t1) (v, None)
        = (case v of [] \<Rightarrow> [] | c # r \<Rightarrow> if ?o c then matches ?t1 (r, None) else [])" for v
      by (cases v) (simp_all del: matches.simps(3,4,5,6) add: matches.simps(3)[of "Class ?o"])
    ultimately show ?thesis by simp
  qed
  show ?thesis
  proof (cases "scan_canje_at s")
    case None
    then have "matches canje_rx (s, None) = []"
      by (auto simp del: matches.simps simp add: whole t1 t2 t3 matches_word_i scan_canje_at_def
          split: list.splits if_splits)
    then show ?thesis
      using None by (simp add: match_at_Nil)
  next
    case (Some ds)
    then have "\<exists>t. matches canje_rx (s, None) = [(t, Some ds)]"
      by (auto simp del: matches.simps simp add: whole t1 t2 t3 matches_word_i scan_canje_at_def
          split: list.splits if_splits)
    then obtain t where "matches canje_rx (s, None) = (t, Some ds) # []"
      by blast
    then have "match_at canje_rx s = Some (Some ds)"
      by (rule match_at_Cons)
    then show ?thesis
      using Some by simp
  qed
qed

lemma take_prefix_dropWhile:
  "take (length pre + length xs - length (dropWhile P xs)) (pre @ xs) = pre @ takeWhile P xs"
proof -
  have "length (takeWhile P xs) + length (dropWhile P xs) = length xs"
    by (simp only: length_append[symmetric] takeWhile_dropWhile_id)
  then have "length pre + length xs - length (dropWhile P xs) = length pre + length (takeWhile P xs)"
    by simp
  then show ?thesis
    by (simp add: takeWhile_eq_take[symmetric])
qed

lemma plus_first:
  "matches (Plus (Class P)) (s, c)
     = (if takeWhile P s = [] then [] else matches (Star (Class P)) (tl s, c))"
  by (cases s) (simp_all add: Plus_def)

lemma match_at_generic: "match_at generic_rx s = map_option Some (scan_generic_at s)"
proof (cases s)
  case Nil
  then show ?thesis
    by (simp add: match_at_def generic_rx_def scan_generic_at_def Plus_def)
next
  case (Cons x xs)
  let ?sign = "\<lambda>x :: nat. x = 43 \<or> x = 45"
  let ?body = "Seq (Opt (Class ?sign)) (Plus (Class is_digit))"
  have sign_not_digit: "\<not> is_digit x" if "?sign x"
    using that by (auto simp: is_digit_def)
  have body: "matches ?body (x # xs, None)
      = (if ?sign x then matches (Plus (Class is_digit)) (xs, None) else [])
        @ matches (Plus (Class is_digit)) (x # xs, None)"
    by (simp del: matches.simps(4) add: Plus_def)
  have grp: "matches generic_rx (x # xs, None)
      = map (\<lambda>st'. (fst st', Some (take (Suc (length xs) - length (fst st')) (x # xs))))
          (matches ?body (x # xs, None))"
    by (simp del: matches.simps(3,4,5) add: generic_rx_def)
  show ?thesis
  proof (cases "?sign x \<and> takeWhile is_digit xs \<noteq> []")
    case True
    obtain sts where "matches (Star (Class is_digit)) (tl xs, None)
        = (dropWhile is_digit (tl xs), None) # sts"
      using star_first by blast
    then have "matches ?body (x # xs, None)
        = (dropWhile is_digit (tl xs), None) # sts @ matches (Plus (Class is_digit)) (x # xs, None)"
      using True by (simp del: matches.simps add: body plus_first)
    moreover have "dropWhile is_digit (tl xs) = dropWhile is_digit xs"
      using True by (cases xs) (auto split: if_splits)
    ultimately have "\<exists>rest. matches generic_rx (x # xs, None)
        = (dropWhile is_digit xs,
           Some (take (Suc (length xs) - length (dropWhile is_digit xs)) (x # xs))) # rest"
      by (simp del: matches.simps add: grp)
    then obtain rest where "matches generic_rx (x # xs, None)
        = (dropWhile is_digit xs, Some (x # takeWhile is_digit xs)) # rest"
      by (auto simp: take_before_dropWhile)
    then have "match_at generic_rx (x # xs) = Some (Some (x # takeWhile is_digit xs))"
      by (rule match_at_Cons)
    then show ?thesis
      using True Cons by (simp add: scan_generic_at_def)
  next
    case False
    show ?thesis
    proof (cases "is_digit x")
      case True
      then have ns: "\<not> ?sign x"
        using sign_not_digit by blast
      obtain sts where "matches (Star (Class is_digit)) (xs, None)
          = (dropWhile is_digit xs, None) # sts"
        using star_first by blast
      then have "matches ?body (x # xs, None) = (dropWhile is_digit xs, None) # sts"
        using True ns by (simp del: matches.simps add: body plus_first)
      then have "matches generic_rx (x # xs, None)
          = (dropWhile is_digit xs,
             Some (take (Suc (length xs) - length (dropWhile is_digit xs)) (x # xs)))
            # map (\<lambda>st'. (fst st', Some (take (Suc (length xs) - length (fst st')) (x # xs)))) sts"
        by (simp del: matches.simps add: grp)
      then have "match_at generic_rx (x # xs)
          = Some (Some (take (Suc (length xs) - length (dropWhile is_digit xs)) (x # xs)))"
        by (rule match_at_Cons)
      then show ?thesis
        using True ns Cons by (simp add: scan_generic_at_def take_before_dropWhile)
    next
      case nd: False
      have "matches ?body (x # xs, None) = []"
        using False nd by (auto simp del: matches.simps simp add: body plus_first)
      then have "matches generic_rx (x # xs, None) = []"
        by (simp del: matches.simps add: grp)
      then have "match_at generic_rx (x # xs) = None"
        by (rule match_at_Nil)
      then show ?thesis
        using False nd Cons by (auto simp: scan_generic_at_def)
    qed
  qed
qed

lemma String_match_scan_first:
  assumes "\<And>u. match_at r u = map_option Some (p u)"
  shows "String_match r s = map_option Some (scan_first p s)"
  by (induction s) (auto simp: assms split: option.splits)

lemma scan_first_Some: "scan_first p s = Some t \<Longrightarrow> \<exists>u. p u = Some t"
  by (induction s) (auto split: option.splits)

lemma takeWhile_id: "list_all P xs \<Longrightarrow> takeWhile P xs = xs"
  by (simp add: list_all_iff)

lemma parseInt10_digits:
  assumes "t \<noteq> []" and "list_all is_digit t"
  shows "parseInt10 h (Some t) = parseInt_number h (scan_value t)"
proof -
  obtain x xs where t: "t = x # xs"
    using assms(1) by (cases t) auto
  have x: "is_digit x" "\<not> is_space x" "x \<noteq> 43" "x \<noteq> 45"
    using assms(2) t digit_not_space[of x] by (auto simp: is_digit_def)
  have xs: "list_all is_digit xs"
    using assms(2) t by simp
  show ?thesis
    unfolding t parseInt10_def scan_value_def
    using x xs by (simp add: Let_def takeWhile_id)
qed

lemma parseInt10_signed:
  assumes "c = 43 \<or> c = 45" and "ds \<noteq> []" and "list_all is_digit ds"
  shows "parseInt10 h (Some (c # ds)) = parseInt_number h (scan_value (c # ds))"
proof -
  have c: "\<not> is_space c"
    using assms(1) by (auto simp: is_space_def)
  show ?thesis
    unfolding parseInt10_def scan_value_def
    using assms c by (auto simp: Let_def takeWhile_id)
qed

lemma scan_value_digits:
  assumes "t \<noteq> []" and "list_all is_digit t"
  shows "0 \<le> scan_value t"
proof -
  obtain x xs where t: "t = x # xs"
    using assms(1) by (cases t) auto
  have "x \<noteq> 43" "x \<noteq> 45"
    using assms(2) t by (auto simp: is_digit_def)
  then show ?thesis
    unfolding t scan_value_def by simp
qed

lemma takeWhile_all: "list_all P (takeWhile P xs)"
  by (induction xs) auto

lemma scan_escaneo_at_digits:
  assumes a: "scan_escaneo_at u = Some t"
  shows "t \<noteq> [] \<and> list_all is_digit t"
proof (cases u)
  case Nil
  then show ?thesis using a by (simp add: scan_escaneo_at_def)
next
  case (Cons c r)
  then have "t = takeWhile is_digit r \<and> takeWhile is_digit r \<noteq> []"
    using a unfolding scan_escaneo_at_def by (simp split: if_splits)
  then show ?thesis
    using takeWhile_all[of is_digit r] by simp
qed

lemma scan_canje_at_digits:
  assumes a: "scan_canje_at u = Some t"
  shows "t \<noteq> [] \<and> list_all is_digit t"
proof (cases "drop 4 u")
  case Nil
  then show ?thesis using a by (simp add: scan_canje_at_def split: if_splits)
next
  case (Cons c r)
  then have "t = takeWhile is_digit (dropWhile is_space r)
      \<and> takeWhile is_digit (dropWhile is_space r) \<noteq> []"
    using a unfolding scan_canje_at_def by (simp split: if_splits)
  then show ?thesis
    using takeWhile_all[of is_digit "dropWhile is_space r"] by simp
qed

lemma scan_generic_at_value:
  assumes a: "scan_generic_at u = Some t"
  shows "parseInt10 h (Some t) = parseInt_number h (scan_value t)"
proof (cases u)
  case Nil
  then show ?thesis using a by (simp add: scan_generic_at_def)
next
  case (Cons c r)
  show ?thesis
  proof (cases "(c = 43 \<or> c = 45) \<and> takeWhile is_digit r \<noteq> []")
    case True
    then have t: "t = c # takeWhile is_digit r"
      using a Cons unfolding scan_generic_at_def by simp
    have "parseInt10 h (Some (c # takeWhile is_digit r))
        = parseInt_number h (scan_value (c # takeWhile is_digit r))"
      using True takeWhile_all[of is_digit r] by (intro parseInt10_signed) simp_all
    then show ?thesis
      unfolding t .
  next
    case False
    then have "is_digit c \<and> t = takeWhile is_digit (c # r)"
      using a Cons unfolding scan_generic_at_def by (simp split: if_splits)
    then have "t \<noteq> []" "list_all is_digit t"
      using takeWhile_all[of is_digit "c # r"] by auto
    then show ?thesis
      by (rule parseInt10_digits)
  qed
qed

lemma parseInt10_escaneo:
  assumes "scan_first scan_escaneo_at d = Some t"
  shows "parseInt10 h (Some t) = parseInt_number h (scan_value t)"
proof -
  obtain u where u: "scan_escaneo_at u = Some t"
    using scan_first_Some[OF assms] by auto
  from scan_escaneo_at_digits[OF u] show ?thesis
    by (simp add: parseInt10_digits)
qed

lemma parseInt10_canje:
  assumes "scan_first scan_canje_at d = Some t"
  shows "num_neg (parseInt10 h (Some t)) = parseInt_number h (- scan_value t)"
proof -
  obtain u where u: "scan_canje_at u = Some t"
    using scan_first_Some[OF assms] by auto
  from scan_canje_at_digits[OF u] show ?thesis
    by (simp add: parseInt10_digits parseInt_number_neg scan_value_digits)
qed

lemma parseInt10_generic:
  assumes "scan_first scan_generic_at d = Some t"
  shows "parseInt10 h (Some t) = parseInt_number h (scan_value t)"
proof -
  obtain u where u: "scan_generic_at u = Some t"
    using scan_first_Some[OF assms] by auto
  then show ?thesis
    by (rule scan_generic_at_value)
qed

lemma parseInt_number_0: "parseInt_number h 0 = Fin 0"
  using parseInt_number_exact[of 0 h] by simp

lemma parseDelta_of_text:
  "parseDeltaFromDetalle h acc (Some (JStr d)) = Inr (parseInt_number h (scan_delta acc d))"
proof (cases d)
  case Nil
  then show ?thesis
    by (simp add: parseDeltaFromDetalle_def scan_delta_def scan_escaneo_at_def scan_canje_at_def
        scan_generic_at_def js_def parseInt_number_0)
next
  case (Cons x xs)
  then have tr: "truthy (Some (JStr d))"
    by simp
  have e: "String_match escaneo_rx d = map_option Some (scan_first scan_escaneo_at d)"
    by (rule String_match_scan_first) (rule match_at_escaneo)
  have c: "String_match canje_rx d = map_option Some (scan_first scan_canje_at d)"
    by (rule String_match_scan_first) (rule match_at_canje)
  have g: "String_match generic_rx d = map_option Some (scan_first scan_generic_at d)"
    by (rule String_match_scan_first) (rule match_at_generic)
  have ne: "js ''escaneo'' \<noteq> js ''canje''"
    by (simp add: js_def)
  show ?thesis
  proof (cases "acc = Some (JStr (js ''escaneo''))")
    case True
    then show ?thesis
      using tr e parseInt10_escaneo[of d]
      by (cases "scan_first scan_escaneo_at d")
         (simp_all add: parseDeltaFromDetalle_def scan_delta_def parseInt_number_0)
  next
    case False
    show ?thesis
    proof (cases "acc = Some (JStr (js ''canje''))")
      case True
      then show ?thesis
        using tr c ne parseInt10_canje[of d]
        by (cases "scan_first scan_canje_at d")
           (simp_all add: parseDeltaFromDetalle_def scan_delta_def parseInt_number_0)
    next
      case nc: False
      then show ?thesis
        using tr g False parseInt10_generic[of d]
        by (cases "scan_first scan_generic_at d")
           (simp_all add: parseDeltaFromDetalle_def scan_delta_def parseInt_number_0)
    qed
  qed
qed

lemma parseDelta_exact:
  assumes "\<bar>scan_delta acc d\<bar> \<le> 2 ^ 53"
  shows "parseDeltaFromDetalle h acc (Some (JStr d)) = Inr (Fin (of_int (scan_delta acc d)))"
  using parseDelta_of_text[of h acc d] parseInt_number_exact[OF assms, of h] by simp

lemma scan_delta_escaneo_5:
  "scan_delta (Some (JStr (js ''escaneo''))) (js ''+5 puntos por reciclaje'') = 5"
  by (simp add: scan_delta_def scan_escaneo_at_def scan_value_def js_def is_digit_def is_space_def
      digits_val_def)

lemma scan_delta_canje_150:
  "scan_delta (Some (JStr (js ''canje''))) gasto_150 = - 150"
  by (simp add: scan_delta_def scan_canje_at_def scan_value_def gasto_150_def js_def is_digit_def
      is_space_def digits_val_def)

lemma scan_delta_otro_20:
  "scan_delta (Some (JStr (js ''otro''))) (js ''ajuste -20'') = - 20"
  by (simp add: scan_delta_def scan_generic_at_def scan_value_def js_def is_digit_def
      digits_val_def)

lemma scan_delta_puntocom:
  "scan_delta (Some (JStr (js ''escaneo''))) (js ''+5 puntocom'') = 5"
  by (simp add: scan_delta_def scan_escaneo_at_def scan_value_def js_def is_digit_def is_space_def
      digits_val_def)

lemma delta_escaneo_5:
  "parseDeltaFromDetalle h (Some (JStr (js ''escaneo''))) (Some (JStr (js ''+5 puntos por reciclaje'')))
     = Inr (Fin 5)"
  using parseDelta_exact[of "Some (JStr (js ''escaneo''))" "js ''+5 puntos por reciclaje''" h]
  by (simp add: scan_delta_escaneo_5)

lemma delta_canje_150:
  "parseDeltaFromDetalle h (Some (JStr (js ''canje''))) (Some (JStr gasto_150)) = Inr (Fin (- 150))"
  using parseDelta_exact[of "Some (JStr (js ''canje''))" gasto_150 h]
  by (simp add: scan_delta_canje_150)

lemma delta_otro_20:
  "parseDeltaFromDetalle h (Some (JStr (js ''otro''))) (Some (JStr (js ''ajuste -20'')))
     = Inr (Fin (- 20))"
  using parseDelta_exact[of "Some (JStr (js ''otro''))" "js ''ajuste -20''" h]
  by (simp add: scan_delta_otro_20)

lemma delta_puntocom:
  "parseDeltaFromDetalle h (Some (JStr (js ''escaneo''))) (Some (JStr (js ''+5 puntocom'')))
     = Inr (Fin 5)"
  using parseDelta_exact[of "Some (JStr (js ''escaneo''))" "js ''+5 puntocom''" h]
  by (simp add: scan_delta_puntocom)

lemma scan_delta_above_2_53:
  "scan_delta (Some (JStr (js ''escaneo''))) (js ''+9007199254740993 puntos'') = 9007199254740993"
  by (simp add: scan_delta_def scan_escaneo_at_def scan_value_def js_def is_digit_def is_space_def
      digits_val_def)

lemma parseInt_number_above_2_53:
  "parseInt_number h 9007199254740993 = Fin 9007199254740992"
proof -
  have "(9007199254740993 :: nat) < 10 ^ 20"
    by simp
  then have "length (digits 9007199254740993) \<le> 20"
    using digits_length[of 20 9007199254740993] by simp
  then have m: "mathInt h 9007199254740993 = 9007199254740993"
    by (simp add: mathInt_def del: digits.simps)
  have b: "binary64 9007199254740993 = Fin 9007199254740992"
    by (simp add: binary64_def floor_log2_def round_at_def round_half_even_def pow2_def Let_def
        bitlen.simps floor_rat_numeral)
  show ?thesis
    by (simp add: parseInt_number_def m b)
qed

lemma claimed_delta_above_2_53:
  "claimed_delta (Some (JStr (js ''escaneo''))) (js ''+9007199254740993 puntos'')
     = 9007199254740993"
  by (simp add: claimed_delta_def claimed_escaneo_at_def word_ends_def is_word_char_def
      scan_value_def js_def is_digit_def is_space_def digits_val_def Let_def)

lemma claimed_delta_puntocom:
  "claimed_delta (Some (JStr (js ''escaneo''))) (js ''+5 puntocom'') = 0"
  by (simp add: claimed_delta_def claimed_escaneo_at_def word_ends_def is_word_char_def
      scan_value_def js_def is_digit_def is_space_def digits_val_def Let_def)

text \<open>
  C3 fails on the code as it is worded, in two ways. The result is a JavaScript number,
  so it is not always the integer of the digits: the detalle
  \<^verbatim>\<open>+9007199254740993 puntos\<close> of an \<^verbatim>\<open>escaneo\<close>, whose digits denote \<open>2^53 + 1\<close>,
  gives \<open>9007199254740992\<close>. And the pattern asks for the letters \<^verbatim>\<open>punto\<close>, not for
  a word: the detalle \<^verbatim>\<open>+5 puntocom\<close>, where no word \<^verbatim>\<open>punto\<close> or \<^verbatim>\<open>puntos\<close>
  follows the digits, gives \<open>5\<close> and not \<open>0\<close>.
\<close>

theorem parseDelta_digits_counterexample:
  "claimed_delta (Some (JStr (js ''escaneo''))) (js ''+9007199254740993 puntos'')
     = 9007199254740993
   \<and> parseDeltaFromDetalle sample_host (Some (JStr (js ''escaneo'')))
      (Some (JStr (js ''+9007199254740993 puntos''))) = Inr (Fin 9007199254740992)
   \<and> parseDeltaFromDetalle sample_host (Some (JStr (js ''escaneo'')))
      (Some (JStr (js ''+9007199254740993 puntos''))) \<noteq> Inr (Fin 9007199254740993)
   \<and> claimed_delta (Some (JStr (js ''escaneo''))) (js ''+5 puntocom'') = 0
   \<and> parseDeltaFromDetalle sample_host (Some (JStr (js ''escaneo'')))
      (Some (JStr (js ''+5 puntocom''))) = Inr (Fin 5)"
  using parseDelta_of_text[of sample_host "Some (JStr (js ''escaneo''))"
      "js ''+9007199254740993 puntos''"]
  by (simp add: scan_delta_above_2_53 parseInt_number_above_2_53 claimed_delta_above_2_53
      claimed_delta_puntocom delta_puntocom)

text \<open>
  C3, amended. For a \<open>detalle\<close> that is a text, \<^verbatim>\<open>parseDeltaFromDetalle\<close> returns the
  number that \<^verbatim>\<open>parseInt\<close> gives for the integer \<open>scan_delta\<close> that the three rules
  find: for \<^verbatim>\<open>escaneo\<close> the digits of the first \<^verbatim>\<open>+<digits>\<close> that the letters
  \<^verbatim>\<open>punto\<close> follow in any case, white space allowed in between and anything allowed
  after them (\<^verbatim>\<open>puntos\<close>, but also \<^verbatim>\<open>puntocom\<close>); for \<^verbatim>\<open>canje\<close> minus the digits
  of the first \<^verbatim>\<open>gasto <digits> pts\<close>, in any case and with or without the accent; for
  any other \<open>accion\<close> the first digits with their optional sign; and \<open>0\<close> when nothing
  is found. That number is the integer itself whenever its magnitude is at most
  \<open>2^53\<close>, and its binary64 value beyond. A missing \<open>detalle\<close> gives \<open>0\<close>, and the
  four literal cases of the specification hold.
\<close>

theorem parseDelta_number_of_digits:
  "parseDeltaFromDetalle h acc (Some (JStr d)) = Inr (parseInt_number h (scan_delta acc d))
   \<and> (\<bar>scan_delta acc d\<bar> \<le> 2 ^ 53
      \<longrightarrow> parseDeltaFromDetalle h acc (Some (JStr d)) = Inr (Fin (of_int (scan_delta acc d))))
   \<and> parseDeltaFromDetalle h acc None = Inr (Fin 0)
   \<and> parseDeltaFromDetalle h (Some (JStr (js ''escaneo'')))
        (Some (JStr (js ''+5 puntos por reciclaje''))) = Inr (Fin 5)
   \<and> parseDeltaFromDetalle h (Some (JStr (js ''canje'')))
        (Some (JStr (js ''Gast'' @ 243 # js '' 150 pts por: Entrada cine''))) = Inr (Fin (- 150))
   \<and> parseDeltaFromDetalle h (Some (JStr (js ''otro''))) (Some (JStr (js ''ajuste -20'')))
        = Inr (Fin (- 20))
   \<and> parseDeltaFromDetalle h (Some (JStr (js ''escaneo''))) (Some (JStr [])) = Inr (Fin 0)
   \<and> parseDeltaFromDetalle h (Some (JStr (js ''escaneo''))) (Some (JStr (js ''+5 puntocom'')))
        = Inr (Fin 5)"
proof (intro conjI impI)
  show "parseDeltaFromDetalle h acc (Some (JStr d)) = Inr (parseInt_number h (scan_delta acc d))"
    by (rule parseDelta_of_text)
  show "parseDeltaFromDetalle h acc (Some (JStr d)) = Inr (Fin (of_int (scan_delta acc d)))"
    if "\<bar>scan_delta acc d\<bar> \<le> 2 ^ 53"
    using that by (rule parseDelta_exact)
  show "parseDeltaFromDetalle h acc None = Inr (Fin 0)"
    by (simp add: parseDeltaFromDetalle_def)
  show "parseDeltaFromDetalle h (Some (JStr (js ''escaneo'')))
        (Some (JStr (js ''+5 puntos por reciclaje''))) = Inr (Fin 5)"
    by (rule delta_escaneo_5)
  show "parseDeltaFromDetalle h (Some (JStr (js ''canje'')))
        (Some (JStr (js ''Gast'' @ 243 # js '' 150 pts por: Entrada cine''))) = Inr (Fin (- 150))"
    using delta_canje_150[of h] by (simp only: gasto_150_def)
  show "parseDeltaFromDetalle h (Some (JStr (js ''otro''))) (Some (JStr (js ''ajuste -20'')))
        = Inr (Fin (- 20))"
    by (rule delta_otro_20)
  show "parseDeltaFromDetalle h (Some (JStr (js ''escaneo''))) (Some (JStr [])) = Inr (Fin 0)"
    by (simp add: parseDeltaFromDetalle_def)
  show "parseDeltaFromDetalle h (Some (JStr (js ''escaneo''))) (Some (JStr (js ''+5 puntocom'')))
        = Inr (Fin 5)"
    by (rule delta_puntocom)
qed

theorem parseDelta_number_of_digits_witness:
  "parseDeltaFromDetalle sample_host (Some (JStr (js ''escaneo'')))
      (Some (JStr (js ''ganaste +42 Puntos''))) = Inr (Fin 42)
   \<and> parseDeltaFromDetalle sample_host (Some (JStr (js ''canje'')))
      (Some (JStr (js ''GASTO 30pts''))) = Inr (Fin (- 30))"
proof -
  have a: "scan_delta (Some (JStr (js ''escaneo''))) (js ''ganaste +42 Puntos'') = 42"
    by (simp add: scan_delta_def scan_escaneo_at_def scan_value_def js_def is_digit_def
        is_space_def digits_val_def)
  have b: "scan_delta (Some (JStr (js ''canje''))) (js ''GASTO 30pts'') = - 30"
    by (simp add: scan_delta_def scan_canje_at_def scan_value_def js_def is_digit_def
        is_space_def digits_val_def)
  have a': "\<bar>scan_delta (Some (JStr (js ''escaneo''))) (js ''ganaste +42 Puntos'')\<bar> \<le> 2 ^ 53"
    by (simp add: a)
  have b': "\<bar>scan_delta (Some (JStr (js ''canje''))) (js ''GASTO 30pts'')\<bar> \<le> 2 ^ 53"
    by (simp add: b)
  have c: "parseDeltaFromDetalle sample_host (Some (JStr (js ''escaneo'')))
      (Some (JStr (js ''ganaste +42 Puntos'')))
      = Inr (Fin (of_int (scan_delta (Some (JStr (js ''escaneo''))) (js ''ganaste +42 Puntos''))))"
    using parseDelta_number_of_digits[where h=sample_host and acc="Some (JStr (js ''escaneo''))"
        and d="js ''ganaste +42 Puntos''"] a'
    by blast
  have d: "parseDeltaFromDetalle sample_host (Some (JStr (js ''canje'')))
      (Some (JStr (js ''GASTO 30pts'')))
      = Inr (Fin (of_int (scan_delta (Some (JStr (js ''canje''))) (js ''GASTO 30pts''))))"
    using parseDelta_number_of_digits[where h=sample_host and acc="Some (JStr (js ''canje''))"
        and d="js ''GASTO 30pts''"] b'
    by blast
  show ?thesis
    using c d by (simp add: a b)
qed

section \<open>Properties of the history\<close>

lemma mset_insert_sorted: "mset (insert_sorted comparefn x ys) = add_mset x (mset ys)"
  by (induction ys) auto

lemma mset_foldl_insert:
  "mset (foldl (\<lambda>acc x. insert_sorted comparefn x acc) acc xs) = mset acc + mset xs"
  by (induction xs arbitrary: acc) (auto simp: mset_insert_sorted)

lemma mset_Array_sort: "mset (Array_sort comparefn xs) = mset xs"
  by (simp add: Array_sort_def mset_foldl_insert)

lemma Array_sort_kept:
  "\<not> num_lt (Fin 0) (SortCompare comparefn x y) \<Longrightarrow> \<not> num_lt (Fin 0) (SortCompare comparefn y z)
   \<Longrightarrow> Array_sort comparefn [x, y, z] = [x, y, z]"
  by (simp add: Array_sort_def)

lemma map_throwing_all2:
  "map_throwing f xs = Inr ys \<longleftrightarrow> list_all2 (\<lambda>x y. f x = Inr y) xs ys"
proof (induction xs arbitrary: ys)
  case Nil
  show ?case by auto
next
  case (Cons x xs)
  show ?case
  proof (cases "f x")
    case (Inl e)
    then show ?thesis by (auto simp: list_all2_Cons1)
  next
    case (Inr y)
    then show ?thesis
      using Cons.IH by (cases "map_throwing f xs") (auto simp: list_all2_Cons1)
  qed
qed

lemma loadHistory_success:
  assumes "c \<noteq> []" and "encodeURIComponent c \<noteq> None"
    and "or_empty_array raw = Inr items"
    and "list_all2 (\<lambda>x y. history_entry h x = Inr y) items entries"
  shows "serverHistory (fst (loadHistoryFromBackend h (Some c) (Fulfilled (Fulfilled raw)) s))
     = Array_sort (by_fecha h) entries"
proof -
  have "map_throwing (history_entry h) items = Inr entries"
    using assms(4) by (simp add: map_throwing_all2)
  then have "loadHistory_try h (Fulfilled (Fulfilled raw)) s
      = (None, s\<lparr> serverHistory := Array_sort (by_fecha h) entries \<rparr>)"
    using assms(3) by (simp add: loadHistory_try_def)
  then show ?thesis
    using assms(1,2) by (auto simp: loadHistoryFromBackend_def)
qed

lemma entry_of_raw_escaneo: "history_entry sample_host raw_escaneo = Inr entry_escaneo"
proof -
  have d: "parseDeltaFromDetalle sample_host (Some (JStr (js ''escaneo'')))
       (Some (JStr (js ''+5 puntos por reciclaje''))) = Inr (Fin 5)"
    by (rule delta_escaneo_5)
  have n: "Number_toString sample_host (Fin 5) = js ''5''"
    by (simp add: Number_toString_def decimal_def js_def)
  have f: "formatFecha sample_host (JStr (js ''1700000000000'')) = js ''1700000000000''"
    by (simp add: formatFecha_def new_Date_def sample_host_def js_def is_digit_def
        digits_val_def decimal_def)
  have k: "js ''detalle'' \<noteq> js ''accion''" "js ''fecha'' \<noteq> js ''accion''"
    "js ''fecha'' \<noteq> js ''detalle''"
    by (simp_all add: js_def)
  show ?thesis
    unfolding history_entry_def raw_escaneo_def
    using k by (simp add: read_prop_def d n f num_ge_def entry_escaneo_def) (simp add: js_def)
qed

lemma entry_of_raw_canje: "history_entry sample_host raw_canje = Inr entry_canje"
proof -
  have d: "parseDeltaFromDetalle sample_host (Some (JStr (js ''canje''))) (Some (JStr gasto_150))
       = Inr (Fin (- 150))"
    by (rule delta_canje_150)
  have n: "Number_toString sample_host (Fin (- 150)) = js ''-150''"
    by (simp add: Number_toString_def decimal_def js_def)
  have k: "js ''detalle'' \<noteq> js ''accion''" "js ''fecha'' \<noteq> js ''accion''"
    "js ''fecha'' \<noteq> js ''detalle''"
    by (simp_all add: js_def)
  show ?thesis
    unfolding history_entry_def raw_canje_def
    using k by (simp add: read_prop_def d n num_ge_def entry_canje_def)
qed

text \<open>
  C5. After a \<^verbatim>\<open>loadHistoryFromBackend\<close> that succeeds on the payload \<open>P2\<close> (an array
  each of whose items yields an entry), run after a call on any payload \<open>P1\<close>, the history
  is the sorted list of the entries of \<open>P2\<close>: it holds exactly those entries, each as often
  as \<open>P2\<close> yields it, and nothing of what the first call stored.
\<close>

theorem history_replaced_not_merged:
  "c \<noteq> [] \<and> encodeURIComponent c \<noteq> None \<and> or_empty_array P2 = Inr items
     \<and> list_all2 (\<lambda>x y. history_entry h x = Inr y) items entries
   \<longrightarrow> serverHistory (fst (loadHistoryFromBackend h (Some c) (Fulfilled (Fulfilled P2))
           (fst (loadHistoryFromBackend h (Some c) (Fulfilled (Fulfilled P1)) s))))
         = Array_sort (by_fecha h) entries
       \<and> mset (serverHistory (fst (loadHistoryFromBackend h (Some c) (Fulfilled (Fulfilled P2))
           (fst (loadHistoryFromBackend h (Some c) (Fulfilled (Fulfilled P1)) s)))))
         = mset entries"
proof
  assume a: "c \<noteq> [] \<and> encodeURIComponent c \<noteq> None \<and> or_empty_array P2 = Inr items
     \<and> list_all2 (\<lambda>x y. history_entry h x = Inr y) items entries"
  let ?s1 = "fst (loadHistoryFromBackend h (Some c) (Fulfilled (Fulfilled P1)) s)"
  have "serverHistory (fst (loadHistoryFromBackend h (Some c) (Fulfilled (Fulfilled P2)) ?s1))
      = Array_sort (by_fecha h) entries"
    using a loadHistory_success[where c=c and raw=P2 and items=items and h=h
        and entries=entries and s="?s1"]
    by blast
  then show "serverHistory (fst (loadHistoryFromBackend h (Some c) (Fulfilled (Fulfilled P2)) ?s1))
         = Array_sort (by_fecha h) entries
       \<and> mset (serverHistory (fst (loadHistoryFromBackend h (Some c) (Fulfilled (Fulfilled P2)) ?s1)))
         = mset entries"
    by (simp add: mset_Array_sort)
qed

theorem history_replaced_not_merged_witness:
  "serverHistory (fst (loadHistoryFromBackend sample_host (Some ana)
       (Fulfilled (Fulfilled (JArr [raw_canje])))
       (fst (loadHistoryFromBackend sample_host (Some ana)
          (Fulfilled (Fulfilled (JArr [raw_escaneo]))) constructor))))
     = [entry_canje]"
proof -
  have a: "ana \<noteq> [] \<and> encodeURIComponent ana \<noteq> None
     \<and> or_empty_array (JArr [raw_canje]) = Inr [raw_canje]
     \<and> list_all2 (\<lambda>x y. history_entry sample_host x = Inr y) [raw_canje] [entry_canje]"
    by (simp add: ana_not_empty encode_ana or_empty_array_def entry_of_raw_canje)
  have b: "Array_sort (by_fecha sample_host) [entry_canje] = [entry_canje]"
    by (simp add: Array_sort_def)
  show ?thesis
    using history_replaced_not_merged[where c=ana and ?P2.0="JArr [raw_canje]"
        and items="[raw_canje]" and h=sample_host and entries="[entry_canje]"
        and ?P1.0="JArr [raw_escaneo]" and s=constructor] a b
    by simp
qed

lemma delta_not_NaN:
  assumes "parseDeltaFromDetalle h acc det = Inr d"
  shows "d \<noteq> NaN"
proof (cases "truthy det")
  case False
  then have "d = Fin 0"
    using assms by (simp add: parseDeltaFromDetalle_def)
  then show ?thesis by simp
next
  case True
  then obtain s where "det = Some (JStr s)"
    using assms
    by (auto simp: parseDeltaFromDetalle_def split: option.splits json.splits)
  then have "d = parseInt_number h (scan_delta acc s)"
    using assms parseDelta_of_text[of h acc s] by simp
  then show ?thesis
    by (simp add: parseInt_number_not_NaN)
qed

lemma num_ge_or_lt: "d \<noteq> NaN \<Longrightarrow> num_ge d (Fin 0) \<or> num_lt d (Fin 0)"
  by (cases d) (auto simp: num_ge_def)

lemma decimal_negative: "n < 0 \<Longrightarrow> hd (decimal n) = 45"
  by (simp add: decimal_def)

lemma entry_of_item:
  assumes "history_entry h raw = Inr e"
  shows "accion e = get_prop raw (js ''accion'')" and "detalle e = get_prop raw (js ''detalle'')"
    and "parseDeltaFromDetalle h (get_prop raw (js ''accion'')) (get_prop raw (js ''detalle''))
         = Inr (delta e)"
    and "badge e = (if num_ge (delta e) (Fin 0) then 43 # Number_toString h (delta e)
                    else Number_toString h (delta e))"
  using assms
  by (auto simp: history_entry_def read_prop_def split: sum.splits json.splits)

text \<open>
  C7. The entry that \<^verbatim>\<open>loadHistoryFromBackend\<close> derives from a payload item keeps
  the item's \<open>accion\<close> and \<open>detalle\<close>, its delta is what \<^verbatim>\<open>parseDeltaFromDetalle\<close>
  returns for them, and its badge is \<^verbatim>\<open>+\<close> followed by the text of the delta when the
  delta is \<open>\<ge> 0\<close>, and the text of the delta otherwise. The delta is never \<open>NaN\<close>, so
  "otherwise" is the case of a delta \<open>< 0\<close>. For an integer delta \<open>n\<close> of magnitude up to
  \<open>2^53\<close>, where the text of a number is its plain decimal numeral, the badge is
  \<^verbatim>\<open>+\<close> and the numeral of \<open>n\<close> when \<open>n \<ge> 0\<close> and the numeral of \<open>n\<close>, which
  begins with the minus sign, when \<open>n < 0\<close>.
\<close>

theorem badge_of_entry:
  "history_entry h raw = Inr e
   \<longrightarrow> accion e = get_prop raw (js ''accion'') \<and> detalle e = get_prop raw (js ''detalle'')
       \<and> parseDeltaFromDetalle h (get_prop raw (js ''accion'')) (get_prop raw (js ''detalle''))
           = Inr (delta e)
       \<and> badge e = (if num_ge (delta e) (Fin 0) then 43 # Number_toString h (delta e)
                      else Number_toString h (delta e))
       \<and> (num_ge (delta e) (Fin 0) \<or> num_lt (delta e) (Fin 0))
       \<and> (delta e = Fin (of_int n) \<and> \<bar>n\<bar> \<le> 2 ^ 53
           \<longrightarrow> badge e = (if 0 \<le> n then 43 # decimal n else decimal n)
               \<and> (n < 0 \<longrightarrow> hd (badge e) = 45))"
proof
  assume a: "history_entry h raw = Inr e"
  note item = entry_of_item[OF a]
  have i: "num_ge (delta e) (Fin 0) \<or> num_lt (delta e) (Fin 0)"
    using delta_not_NaN[OF item(3)] by (rule num_ge_or_lt)
  have c: "badge e = (if 0 \<le> n then 43 # decimal n else decimal n) \<and> (n < 0 \<longrightarrow> hd (badge e) = 45)"
    if d: "delta e = Fin (of_int n) \<and> \<bar>n\<bar> \<le> 2 ^ 53"
  proof -
    have "\<bar>(of_int n :: rat)\<bar> \<le> 2 ^ 53"
    proof -
      have "(of_int \<bar>n\<bar> :: rat) \<le> of_int (2 ^ 53)"
        using d by (simp only: of_int_le_iff)
      then show ?thesis by simp
    qed
    then have "Number_toString h (delta e) = decimal n"
      using d by (simp add: Number_toString_def)
    moreover have "num_ge (delta e) (Fin 0) = (0 \<le> n)"
      using d by (auto simp: num_ge_def)
    ultimately show ?thesis
      using item(4) decimal_negative[of n] by auto
  qed
  from item i c
  show "accion e = get_prop raw (js ''accion'') \<and> detalle e = get_prop raw (js ''detalle'')
       \<and> parseDeltaFromDetalle h (get_prop raw (js ''accion'')) (get_prop raw (js ''detalle''))
           = Inr (delta e)
       \<and> badge e = (if num_ge (delta e) (Fin 0) then 43 # Number_toString h (delta e)
                      else Number_toString h (delta e))
       \<and> (num_ge (delta e) (Fin 0) \<or> num_lt (delta e) (Fin 0))
       \<and> (delta e = Fin (of_int n) \<and> \<bar>n\<bar> \<le> 2 ^ 53
           \<longrightarrow> badge e = (if 0 \<le> n then 43 # decimal n else decimal n)
               \<and> (n < 0 \<longrightarrow> hd (badge e) = 45))"
    by blast
qed

theorem badge_of_entry_witness:
  "history_entry sample_host raw_escaneo = Inr entry_escaneo
   \<and> parseDeltaFromDetalle sample_host (get_prop raw_escaneo (js ''accion''))
        (get_prop raw_escaneo (js ''detalle'')) = Inr (Fin 5)
   \<and> badge entry_escaneo = 43 # decimal 5
   \<and> history_entry sample_host raw_canje = Inr entry_canje
   \<and> parseDeltaFromDetalle sample_host (get_prop raw_canje (js ''accion''))
        (get_prop raw_canje (js ''detalle'')) = Inr (Fin (- 150))
   \<and> badge entry_canje = decimal (- 150)
   \<and> hd (badge entry_canje) = 45"
proof -
  have a: "delta entry_escaneo = Fin (of_int 5) \<and> \<bar>5 :: int\<bar> \<le> 2 ^ 53"
    by (simp add: entry_escaneo_def)
  have b: "delta entry_canje = Fin (of_int (- 150)) \<and> \<bar>- 150 :: int\<bar> \<le> 2 ^ 53"
    by (simp add: entry_canje_def)
  have c: "parseDeltaFromDetalle sample_host (get_prop raw_escaneo (js ''accion''))
        (get_prop raw_escaneo (js ''detalle'')) = Inr (delta entry_escaneo)
      \<and> badge entry_escaneo = (if (0 :: int) \<le> 5 then 43 # decimal 5 else decimal 5)"
    using badge_of_entry[where h=sample_host and raw=raw_escaneo and e=entry_escaneo and n=5]
      entry_of_raw_escaneo a
    by blast
  have d: "parseDeltaFromDetalle sample_host (get_prop raw_canje (js ''accion''))
        (get_prop raw_canje (js ''detalle'')) = Inr (delta entry_canje)
      \<and> badge entry_canje = (if (0 :: int) \<le> - 150 then 43 # decimal (- 150) else decimal (- 150))
      \<and> ((- 150 :: int) < 0 \<longrightarrow> hd (badge entry_canje) = 45)"
    using badge_of_entry[where h=sample_host and raw=raw_canje and e=entry_canje and n="- 150"]
      entry_of_raw_canje b
    by blast
  have e: "delta entry_escaneo = Fin 5" "delta entry_canje = Fin (- 150)"
    by (simp_all add: entry_escaneo_def entry_canje_def)
  show ?thesis
    using c d e entry_of_raw_escaneo entry_of_raw_canje by (simp add: decimal_negative)
qed

text \<open>
  C4 fails on the code. The comparator of the sort parses the displayed date text; for
  the sentinel \<^verbatim>\<open>Ahora\<close> the difference is \<open>NaN\<close>, which the sort reads as "equal". In
  every host where \<^verbatim>\<open>Ahora\<close> is not a date, a payload of two items whose second item
  yields the sentinel keeps its order: the entry without a date stays behind the first
  entry, whatever the date of the first.
\<close>

theorem sentinel_entry_not_moved_ahead:
  "Date_parse h Ahora = None \<and> c \<noteq> [] \<and> encodeURIComponent c \<noteq> None
     \<and> history_entry h a = Inr ea \<and> history_entry h b = Inr eb \<and> fecha eb = Ahora
   \<longrightarrow> serverHistory (fst (loadHistoryFromBackend h (Some c) (Fulfilled (Fulfilled (JArr [a, b]))) s))
         = [ea, eb]"
proof
  assume p: "Date_parse h Ahora = None \<and> c \<noteq> [] \<and> encodeURIComponent c \<noteq> None
     \<and> history_entry h a = Inr ea \<and> history_entry h b = Inr eb \<and> fecha eb = Ahora"
  have "by_fecha h ea eb = NaN"
    using p by (simp add: by_fecha_def)
  then have "Array_sort (by_fecha h) [ea, eb] = [ea, eb]"
    by (simp add: Array_sort_def SortCompare_def)
  moreover have "or_empty_array (JArr [a, b]) = Inr [a, b]"
    by (simp add: or_empty_array_def)
  moreover have "list_all2 (\<lambda>x y. history_entry h x = Inr y) [a, b] [ea, eb]"
    using p by simp
  ultimately show "serverHistory (fst (loadHistoryFromBackend h (Some c)
      (Fulfilled (Fulfilled (JArr [a, b]))) s)) = [ea, eb]"
    using p loadHistory_success[where c=c and raw="JArr [a, b]" and items="[a, b]" and h=h
        and entries="[ea, eb]" and s=s]
    by simp
qed

theorem sentinel_entry_not_moved_ahead_witness:
  "map fecha (serverHistory (fst (loadHistoryFromBackend sample_host (Some ana)
       (Fulfilled (Fulfilled (JArr [raw_escaneo, raw_canje]))) constructor)))
     = [js ''1700000000000'', Ahora]"
proof -
  have a: "Date_parse sample_host Ahora = None"
    by (simp add: sample_host_def Ahora_def js_def is_digit_def)
  have b: "fecha entry_canje = Ahora" "fecha entry_escaneo = js ''1700000000000''"
    by (simp_all add: entry_canje_def entry_escaneo_def)
  show ?thesis
    using sentinel_entry_not_moved_ahead[where h=sample_host and c=ana and a=raw_escaneo
        and b=raw_canje and ea=entry_escaneo and eb=entry_canje and s=constructor]
      a b ana_not_empty encode_ana entry_of_raw_escaneo entry_of_raw_canje
    by simp
qed

section \<open>Further properties of \<^verbatim>\<open>fetchPoints\<close>\<close>

lemma step_keeps_count:
  assumes "waiting q = (if fetchingPoints (the_app q) then 1 else 0)"
  shows "waiting (fst (step h q e))
       = (if fetchingPoints (the_app (fst (step h q e))) then 1 else 0)"
proof (cases e)
  case (Call now correo)
  obtain s' fx w where b: "fetchPoints_begin now correo (the_app q) = (s', fx, w)"
    by (cases "fetchPoints_begin now correo (the_app q)") auto
  from begin_cases[OF b] show ?thesis
    using Call b assms by (auto simp: step_def split: if_splits)
next
  case (Settle rs)
  then show ?thesis
    using resume_frame(2)[where h=h and rs=rs and s="the_app q"] assms
    by (auto simp: step_def split: prod.splits if_splits)
qed

lemma after_keeps_count:
  "waiting q = (if fetchingPoints (the_app q) then 1 else 0) \<Longrightarrow>
   waiting (after h q es) = (if fetchingPoints (the_app (after h q es)) then 1 else 0)"
proof (induction es arbitrary: q)
  case Nil
  then show ?case by simp
next
  case (Cons e es)
  from Cons.IH[OF step_keeps_count[OF Cons.prems]] show ?case by simp
qed

text \<open>
  At most one call of \<^verbatim>\<open>fetchPoints\<close> awaits its responses at any time: from a
  state where the flag \<^verbatim>\<open>_fetchingPoints\<close> is set exactly when one call waits (the
  state the constructor leaves is such a state), every sequence of calls and responses
  leads to a state where this is so again.
\<close>

theorem single_call_in_flight:
  "waiting q = (if fetchingPoints (the_app q) then 1 else 0)
   \<longrightarrow> waiting (after h q es) \<le> 1
       \<and> (fetchingPoints (the_app (after h q es)) \<longleftrightarrow> waiting (after h q es) = 1)"
proof
  assume "waiting q = (if fetchingPoints (the_app q) then 1 else 0)"
  then have "waiting (after h q es) = (if fetchingPoints (the_app (after h q es)) then 1 else 0)"
    by (rule after_keeps_count)
  then show "waiting (after h q es) \<le> 1
       \<and> (fetchingPoints (the_app (after h q es)) \<longleftrightarrow> waiting (after h q es) = 1)"
    by (simp split: if_splits)
qed

theorem single_call_in_flight_witness:
  "waiting (after sample_host idle
      [Call 1700000000000 (Some ana), Call 1700000005000 (Some ana), Call 1700000009000 (Some ana)])
     \<le> 1"
proof -
  have "waiting idle = (if fetchingPoints (the_app idle) then 1 else 0)"
    by (simp add: idle_def constructor_def)
  then show ?thesis
    using single_call_in_flight[where q=idle and h=sample_host
        and es="[Call 1700000000000 (Some ana), Call 1700000005000 (Some ana),
                 Call 1700000009000 (Some ana)]"]
    by blast
qed

text \<open>
  When both responses parse, a balance response without the field \<^verbatim>\<open>puntos\<close>, or
  with \<^verbatim>\<open>null\<close> in it, sets \<^verbatim>\<open>userPoints\<close> to \<open>0\<close>, and a field that holds a number
  is stored as it is; the same holds for \<^verbatim>\<open>puntos_acumulados\<close> and
  \<^verbatim>\<open>userPointsTotal\<close> once the conversion of the balance has not thrown. This is also
  what happens to an error object sent with an HTTP error status.
\<close>

theorem missing_field_becomes_0:
  "(opt_prop saldo (js ''puntos'') = None \<or> opt_prop saldo (js ''puntos'') = Some JNull
      \<longrightarrow> userPoints (fst (fetchPoints_resume h
             (Fulfilled (Fulfilled saldo), Fulfilled (Fulfilled total')) s)) = Fin 0)
   \<and> (opt_prop saldo (js ''puntos'') = Some (JNum n)
      \<longrightarrow> userPoints (fst (fetchPoints_resume h
             (Fulfilled (Fulfilled saldo), Fulfilled (Fulfilled total')) s)) = n)
   \<and> (Number (nullish_or (opt_prop saldo (js ''puntos'')) (JNum (Fin 0))) = Inr p
        \<and> (opt_prop total' (js ''puntos_acumulados'') = None
             \<or> opt_prop total' (js ''puntos_acumulados'') = Some JNull)
      \<longrightarrow> userPointsTotal (fst (fetchPoints_resume h
             (Fulfilled (Fulfilled saldo), Fulfilled (Fulfilled total')) s)) = Fin 0)"
  by (auto simp: fetchPoints_resume_def fetchPoints_try_def Number_def nullish_or_def Let_def
           split: prod.splits sum.splits)

theorem missing_field_becomes_0_witness:
  "userPoints (fst (fetchPoints_resume sample_host
       (Fulfilled (Fulfilled (JObj [(js ''error'', JStr (js ''Usuario no encontrado''))])),
        Fulfilled (Fulfilled (JObj [(js ''puntos_acumulados'', JNum (Fin 95))]))) shop)) = Fin 0"
proof -
  have "js ''error'' \<noteq> js ''puntos''"
    by (simp add: js_def)
  then have "opt_prop (JObj [(js ''error'', JStr (js ''Usuario no encontrado''))]) (js ''puntos'')
      = None"
    by (simp add: opt_prop_def)
  then show ?thesis
    using missing_field_becomes_0[where saldo="JObj [(js ''error'', JStr (js ''Usuario no encontrado''))]"
        and h=sample_host and s=shop
        and total'="JObj [(js ''puntos_acumulados'', JNum (Fin 95))]"]
    by blast
qed

text \<open>
  The two fields are assigned one after the other. When the conversion of the
  cumulative total throws (its field holds an object with a property \<^verbatim>\<open>toString\<close> of
  its own), the balance has already been overwritten and the total keeps its old value;
  the exception is logged.
\<close>

theorem conversion_error_after_first_assignment:
  "userPoints (fst (fetchPoints_resume h
       (Fulfilled (Fulfilled (JObj [(js ''puntos'', JNum (Fin 7))])),
        Fulfilled (Fulfilled (JObj [(js ''puntos_acumulados'', JObj [(js ''toString'', JNull)])])))
       shop)) = Fin 7
   \<and> userPointsTotal (fst (fetchPoints_resume h
       (Fulfilled (Fulfilled (JObj [(js ''puntos'', JNum (Fin 7))])),
        Fulfilled (Fulfilled (JObj [(js ''puntos_acumulados'', JObj [(js ''toString'', JNull)])])))
       shop)) = Fin 90
   \<and> snd (fetchPoints_resume h
       (Fulfilled (Fulfilled (JObj [(js ''puntos'', JNum (Fin 7))])),
        Fulfilled (Fulfilled (JObj [(js ''puntos_acumulados'', JObj [(js ''toString'', JNull)])])))
       shop) = [ConsoleError]"
  by (simp add: fetchPoints_resume_def fetchPoints_try_def Number_def opt_prop_def nullish_or_def
      Let_def shop_def)

end
